theory Spec2Isabelle
  imports Main "HOL-Library.Sublist"
begin

section \<open>Python values and library functions used by \<open>backend/main.py\<close>\<close>

text \<open>
  The backend is one Python module, \<open>src/backend/main.py\<close>. Its core is
  \<open>render_video_task\<close>, which turns the overlay metadata of a job into an
  \<open>ffmpeg\<close> command line, runs it, records the outcome in the global dictionary
  \<open>job_status\<close> and removes the uploaded file.

  Python strings are modelled as \<open>string\<close> (a list of bytes); the model coincides with
  Python on ASCII text. A value produced by \<open>json.loads\<close> is a \<open>json\<close> value. A JSON
  float carries the text that Python's \<open>str\<close> prints for it, since only that text is
  ever used by the program.

  Exceptions are values of \<open>py_error\<close>. Storage is the set of paths that exist;
  \<open>os.remove\<close> of an existing path takes it out of the set. The external encoder and
  \<open>json.loads\<close> are parameters of the model. Output written by \<open>print\<close> is left out.
\<close>

datatype json =
    JNull
  | JBool bool
  | JInt int
  | JFloat string
  | JStr string
  | JArr "json list"
  | JObj "(string \<times> json) list"

datatype py_error =
    KeyError
  | TypeError
  | AttributeError
  | JSONDecodeError
  | CalledProcessError
  | OSError
  | UnicodeDecodeError

abbreviation SQ :: char where "SQ \<equiv> CHR 0x27"
abbreviation DQ :: char where "DQ \<equiv> CHR 0x22"
abbreviation BS :: char where "BS \<equiv> CHR 0x5C"

subsection \<open>\<open>str\<close> of an integer\<close>

definition digit_char :: "nat \<Rightarrow> char" where
  "digit_char d = char_of (48 + d)"

function str_nat :: "nat \<Rightarrow> string" where
  "str_nat n = (if n < 10 then [digit_char n] else str_nat (n div 10) @ [digit_char (n mod 10)])"
  by pat_completeness auto
termination
  by (relation "measure id") auto

declare str_nat.simps [simp del]

definition str_int :: "int \<Rightarrow> string" where
  "str_int i = (if i < 0 then CHR ''-'' # str_nat (nat (- i)) else str_nat (nat i))"

subsection \<open>\<open>repr\<close> and \<open>str\<close> of a JSON value\<close>

definition hex_digit :: "nat \<Rightarrow> char" where
  "hex_digit d = (if d < 10 then char_of (48 + d) else char_of (87 + d))"

text \<open>One character of \<open>repr(s)\<close> for a string \<open>s\<close> quoted with \<open>q\<close>.\<close>

definition repr_char :: "char \<Rightarrow> char \<Rightarrow> string" where
  "repr_char q c =
     (if c = q \<or> c = BS then [BS, c]
      else if c = CHR 0x09 then [BS, CHR ''t'']
      else if c = CHR 0x0A then [BS, CHR ''n'']
      else if c = CHR 0x0D then [BS, CHR ''r'']
      else if of_char c < (32 :: nat) \<or> c = CHR 0x7F
        then [BS, CHR ''x'', hex_digit (of_char c div 16), hex_digit (of_char c mod 16)]
      else [c])"

definition repr_str :: "string \<Rightarrow> string" where
  "repr_str s =
     (let q = (if SQ \<in> set s \<and> DQ \<notin> set s then DQ else SQ)
      in q # concat (map (repr_char q) s) @ [q])"

text \<open>\<open>sep.join(xs)\<close>.\<close>

fun py_join :: "string \<Rightarrow> string list \<Rightarrow> string" where
  "py_join sep [] = []"
| "py_join sep [x] = x"
| "py_join sep (x # y # ys) = x @ sep @ py_join sep (y # ys)"

fun py_repr :: "json \<Rightarrow> string" where
  "py_repr JNull = ''None''"
| "py_repr (JBool b) = (if b then ''True'' else ''False'')"
| "py_repr (JInt i) = str_int i"
| "py_repr (JFloat t) = t"
| "py_repr (JStr s) = repr_str s"
| "py_repr (JArr xs) = ''['' @ py_join '', '' (map py_repr xs) @ '']''"
| "py_repr (JObj kvs) =
     ''{'' @ py_join '', '' (map (\<lambda>(k, v). repr_str k @ '': '' @ py_repr v) kvs) @ ''}''"

text \<open>What an f-string writes for \<open>{v}\<close>: \<open>str(v)\<close>.\<close>

definition py_str :: "json \<Rightarrow> string" where
  "py_str v = (case v of JStr s \<Rightarrow> s | _ \<Rightarrow> py_repr v)"

subsection \<open>Subscripts, \<open>dict.get\<close>, iteration, \<open>str.replace\<close>\<close>

fun lookup :: "(string \<times> json) list \<Rightarrow> string \<Rightarrow> json option" where
  "lookup [] k = None"
| "lookup ((k', v) # kvs) k = (if k' = k then Some v else lookup kvs k)"

text \<open>
  \<open>overlay['key']\<close>: a dictionary without the key raises \<open>KeyError\<close>; a string or a list
  subscripted by a string, and a value that has no subscript at all, raise \<open>TypeError\<close>.
\<close>

definition py_getitem :: "json \<Rightarrow> string \<Rightarrow> py_error + json" where
  "py_getitem v k =
     (case v of
        JObj kvs \<Rightarrow> (case lookup kvs k of None \<Rightarrow> Inl KeyError | Some x \<Rightarrow> Inr x)
      | _ \<Rightarrow> Inl TypeError)"

text \<open>\<open>v.get(key, default)\<close>: only a dictionary has the method.\<close>

definition py_get :: "json \<Rightarrow> string \<Rightarrow> json \<Rightarrow> py_error + json" where
  "py_get v k d =
     (case v of
        JObj kvs \<Rightarrow> (case lookup kvs k of None \<Rightarrow> Inr d | Some x \<Rightarrow> Inr x)
      | _ \<Rightarrow> Inl AttributeError)"

text \<open>
  The items a \<open>for\<close> loop draws from a value: the elements of a list, the keys of a
  dictionary, the characters of a string; anything else is not iterable.
\<close>

definition py_iter :: "json \<Rightarrow> py_error + json list" where
  "py_iter v =
     (case v of
        JArr xs \<Rightarrow> Inr xs
      | JObj kvs \<Rightarrow> Inr (map (\<lambda>kv. JStr (fst kv)) kvs)
      | JStr s \<Rightarrow> Inr (map (\<lambda>c. JStr [c]) s)
      | _ \<Rightarrow> Inl TypeError)"

text \<open>\<open>s.replace("'", "\\'")\<close>: a backslash is put before every single quote.\<close>

fun escape_quotes :: "string \<Rightarrow> string" where
  "escape_quotes [] = []"
| "escape_quotes (c # cs) = (if c = SQ then BS # SQ # escape_quotes cs else c # escape_quotes cs)"

text \<open>\<open>overlay['content'].replace(...)\<close>: only a string has the method.\<close>

definition py_replace_quotes :: "json \<Rightarrow> py_error + string" where
  "py_replace_quotes v = (case v of JStr s \<Rightarrow> Inr (escape_quotes s) | _ \<Rightarrow> Inl AttributeError)"

subsection \<open>\<open>os.path\<close> on POSIX\<close>

text \<open>\<open>os.path.join(a, b)\<close>: an absolute \<open>b\<close> replaces \<open>a\<close>.\<close>

definition path_join :: "string \<Rightarrow> string \<Rightarrow> string" where
  "path_join a b =
     (if b \<noteq> [] \<and> hd b = CHR ''/'' then b
      else if a = [] \<or> last a = CHR ''/'' then a @ b
      else a @ ''/'' @ b)"




section \<open>Configuration and state of the module\<close>

definition STORAGE_DIR :: string where
  "STORAGE_DIR = ''rendered_videos''"

datatype job_state = PENDING | PROCESSING | COMPLETE | FAILED

text \<open>One entry of the dictionary \<open>job_status\<close>.\<close>

record job =
  status :: job_state
  job_video_path :: string
  job_metadata :: string
  result_path :: "string option"

text \<open>
  How \<open>subprocess.run(command, check=True, capture_output=True, text=True)\<close> ends:
  \<open>Exit code\<close> when the process exited with \<open>code\<close> and its captured output was decoded
  as text, \<open>Undecodable\<close> when the process ended and its captured output is not text in
  the locale's encoding (the call raises \<open>UnicodeDecodeError\<close> then, whatever the exit
  code), \<open>NotStarted\<close> when the process could not be started.
\<close>

datatype run_outcome = Exit int | Undecodable | NotStarted

text \<open>
  What the module reads from its surroundings: the working directory, \<open>json.loads\<close>, and
  the external encoder, which maps a command line and the paths that exist to its outcome
  and the paths that exist afterwards.
\<close>

record env =
  getcwd :: string
  json_loads :: "string \<Rightarrow> py_error + json"
  run :: "string list \<Rightarrow> string set \<Rightarrow> run_outcome \<times> string set"

text \<open>
  The mutable world: the dictionary \<open>job_status\<close>, the paths that exist on storage, and
  the log of the \<open>os.remove\<close> calls made so far.
\<close>

record world =
  job_status :: "string \<rightharpoonup> job"
  files :: "string set"
  removed :: "string list"

section \<open>The filter graph of a job (\<open>render_video_task\<close>, steps 1 and 2)\<close>

text \<open>The local variables that the overlay loop updates.\<close>

record cstate =
  input_files :: "string list"
  filter_complex_list :: "string list"
  current_stream :: string
  filter_count :: nat
  asset_input_index :: nat

text \<open>Step 1: the values before the loop.\<close>

definition init_cstate :: "string \<Rightarrow> cstate" where
  "init_cstate video_path =
     \<lparr> input_files = [''ffmpeg'', ''-y'', ''-i'', video_path],
       filter_complex_list = [],
       current_stream = ''[0:v]'',
       filter_count = 0,
       asset_input_index = 1 \<rparr>"

text \<open>\<open>new_stream = f"[v{filter_count}]"\<close> and \<open>scale_stream = f"[img_scaled{filter_count}]"\<close>.\<close>

definition new_stream :: "nat \<Rightarrow> string" where
  "new_stream n = ''[v'' @ str_nat n @ '']''"

definition scale_stream :: "nat \<Rightarrow> string" where
  "scale_stream n = ''[img_scaled'' @ str_nat n @ '']''"

text \<open>\<open>enable='between(t,{start},{end})'\<close>, the end of both filters.\<close>

definition enable_between :: "json \<Rightarrow> json \<Rightarrow> string" where
  "enable_between start end_t =
     ''enable='' @ [SQ] @ ''between(t,'' @ py_str start @ '','' @ py_str end_t @ '')'' @ [SQ]"

definition font_path :: "env \<Rightarrow> string" where
  "font_path e = path_join (path_join (getcwd e) ''assets'') ''Arial.ttf''"

definition image_path :: "env \<Rightarrow> string" where
  "image_path e = path_join (path_join (getcwd e) ''assets'') ''logo.png''"

definition text_filter :: "env \<Rightarrow> string \<Rightarrow> json \<Rightarrow> json \<Rightarrow> json \<Rightarrow> json \<Rightarrow> string" where
  "text_filter e text_content x_pos y_pos start end_t =
     ''drawtext=text='' @ [SQ] @ text_content @ [SQ] @ '':''
     @ ''fontfile='' @ [SQ] @ font_path e @ [SQ] @ '':''
     @ ''fontcolor=yellow:fontsize=48:x='' @ py_str x_pos @ '':y='' @ py_str y_pos @ '':''
     @ enable_between start end_t"

definition scale_filter :: "nat \<Rightarrow> nat \<Rightarrow> string" where
  "scale_filter asset_index n =
     ''['' @ str_nat asset_index @ '':v] scale=150:-1 '' @ scale_stream n"

definition overlay_filter :: "json \<Rightarrow> json \<Rightarrow> string" where
  "overlay_filter start end_t = ''overlay=x=W-w-20:y=20:'' @ enable_between start end_t"

text \<open>
  Step 2, one turn of the loop \<open>for overlay in overlays\<close>. \<open>fs\<close> holds the paths that
  exist, read by \<open>os.path.exists\<close>. An exception leaves the loop; \<open>continue\<close> and an
  overlay whose type is neither \<open>'text'\<close> nor \<open>'image'\<close> keep everything but the counter.
\<close>

definition process_overlay :: "env \<Rightarrow> string set \<Rightarrow> cstate \<Rightarrow> json \<Rightarrow> py_error + cstate" where
  "process_overlay e fs s overlay =
     (let n = filter_count s + 1 in
      case py_getitem overlay ''start_time'' of Inl err \<Rightarrow> Inl err | Inr start \<Rightarrow>
     (case py_getitem overlay ''end_time'' of Inl err \<Rightarrow> Inl err | Inr end_t \<Rightarrow>
     (case py_getitem overlay ''type'' of Inl err \<Rightarrow> Inl err | Inr ty \<Rightarrow>
      if ty = JStr ''text'' then
        (case py_getitem overlay ''content'' of Inl err \<Rightarrow> Inl err | Inr content \<Rightarrow>
        (case py_replace_quotes content of Inl err \<Rightarrow> Inl err | Inr text_content \<Rightarrow>
        (case py_get overlay ''x_pos'' (JInt 50) of Inl err \<Rightarrow> Inl err | Inr x_pos \<Rightarrow>
        (case py_get overlay ''y_pos'' (JInt 50) of Inl err \<Rightarrow> Inl err | Inr y_pos \<Rightarrow>
           Inr (s\<lparr> filter_complex_list := filter_complex_list s
                       @ [current_stream s @ text_filter e text_content x_pos y_pos start end_t
                          @ new_stream n],
                    current_stream := new_stream n,
                    filter_count := n \<rparr>)))))
      else if ty = JStr ''image'' then
        (if image_path e \<notin> fs then Inr (s\<lparr> filter_count := n \<rparr>)
         else
           Inr (s\<lparr> input_files := input_files s @ [''-i'', image_path e],
                    filter_complex_list := filter_complex_list s
                       @ [scale_filter (asset_input_index s) n @ ''; '' @ current_stream s
                          @ scale_stream n @ overlay_filter start end_t @ new_stream n],
                    current_stream := new_stream n,
                    filter_count := n,
                    asset_input_index := asset_input_index s + 1 \<rparr>))
      else Inr (s\<lparr> filter_count := n \<rparr>))))"

text \<open>The whole loop; the first exception ends it.\<close>

fun process_overlays :: "env \<Rightarrow> string set \<Rightarrow> cstate \<Rightarrow> json list \<Rightarrow> py_error + cstate" where
  "process_overlays e fs s [] = Inr s"
| "process_overlays e fs s (overlay # overlays) =
     (case process_overlay e fs s overlay of
        Inl err \<Rightarrow> Inl err
      | Inr s' \<Rightarrow> process_overlays e fs s' overlays)"

text \<open>Steps 1 and 2 together, for the items of \<open>overlays\<close>.\<close>

definition compile :: "env \<Rightarrow> string set \<Rightarrow> string \<Rightarrow> json list \<Rightarrow> py_error + cstate" where
  "compile e fs video_path overlays = process_overlays e fs (init_cstate video_path) overlays"

section \<open>The command line (\<open>render_video_task\<close>, step 3)\<close>

definition output_path :: "string \<Rightarrow> string" where
  "output_path job_id = path_join STORAGE_DIR (job_id @ ''_final.mp4'')"

definition filter_complex_string :: "string list \<Rightarrow> string" where
  "filter_complex_string stages = py_join '', '' stages"

definition build_command :: "cstate \<Rightarrow> string \<Rightarrow> string list" where
  "build_command s out =
     input_files s @
     [''-filter_complex'', filter_complex_string (filter_complex_list s),
      ''-map'', current_stream s,
      ''-map'', ''0:a?'',
      ''-c:v'', ''libx264'',
      ''-crf'', ''23'',
      ''-preset'', ''veryfast'',
      ''-c:a'', ''aac'',
      ''-b:a'', ''192k'',
      out]"

section \<open>Running a job (\<open>render_video_task\<close>)\<close>

definition set_status :: "world \<Rightarrow> string \<Rightarrow> job_state \<Rightarrow> py_error + world" where
  "set_status w job_id st =
     (case job_status w job_id of
        None \<Rightarrow> Inl KeyError
      | Some j \<Rightarrow> Inr (w\<lparr> job_status := (job_status w)(job_id \<mapsto> j\<lparr> status := st \<rparr>) \<rparr>))"

definition set_result_path :: "world \<Rightarrow> string \<Rightarrow> string \<Rightarrow> py_error + world" where
  "set_result_path w job_id p =
     (case job_status w job_id of
        None \<Rightarrow> Inl KeyError
      | Some j \<Rightarrow> Inr (w\<lparr> job_status := (job_status w)(job_id \<mapsto> j\<lparr> result_path := Some p \<rparr>) \<rparr>))"

text \<open>
  The body of the \<open>try\<close> statement. The result is the world when the body ends, and the
  exception that ended it, if any.
\<close>

definition try_body :: "env \<Rightarrow> world \<Rightarrow> string \<Rightarrow> string \<Rightarrow> string \<Rightarrow> world \<times> py_error option" where
  "try_body e w job_id video_path metadata_str =
     (case set_status w job_id PROCESSING of Inl err \<Rightarrow> (w, Some err) | Inr w1 \<Rightarrow>
     (case json_loads e metadata_str of Inl err \<Rightarrow> (w1, Some err) | Inr md \<Rightarrow>
     (case py_get md ''overlays'' (JArr []) of Inl err \<Rightarrow> (w1, Some err) | Inr overlays \<Rightarrow>
     (case py_iter overlays of Inl err \<Rightarrow> (w1, Some err) | Inr items \<Rightarrow>
     (case compile e (files w1) video_path items of Inl err \<Rightarrow> (w1, Some err) | Inr s \<Rightarrow>
      let command = build_command s (output_path job_id);
          r = run e command (files w1);
          w2 = w1\<lparr> files := snd r \<rparr>
      in (case fst r of
            NotStarted \<Rightarrow> (w2, Some OSError)
          | Undecodable \<Rightarrow> (w2, Some UnicodeDecodeError)
          | Exit code \<Rightarrow>
              if code \<noteq> 0 then (w2, Some CalledProcessError)
              else
                (case set_result_path w2 job_id (output_path job_id) of
                   Inl err \<Rightarrow> (w2, Some err)
                 | Inr w3 \<Rightarrow>
                     (case set_status w3 job_id COMPLETE of
                        Inl err \<Rightarrow> (w3, Some err)
                      | Inr w4 \<Rightarrow> (w4, None)))))))))"

text \<open>
  Both \<open>except\<close> clauses store \<open>"FAILED"\<close>; the store raises \<open>KeyError\<close> itself when the
  job is unknown, and that exception leaves the function.
\<close>

definition except_clauses :: "world \<times> py_error option \<Rightarrow> string \<Rightarrow> world \<times> py_error option" where
  "except_clauses r job_id =
     (case snd r of
        None \<Rightarrow> r
      | Some err \<Rightarrow>
          (case set_status (fst r) job_id FAILED of
             Inl err' \<Rightarrow> (fst r, Some err')
           | Inr w' \<Rightarrow> (w', None)))"

text \<open>The \<open>finally\<close> clause: the uploaded file is removed when it exists.\<close>

definition finally_clause :: "world \<Rightarrow> string \<Rightarrow> world" where
  "finally_clause w video_path =
     (if video_path \<in> files w
      then w\<lparr> files := files w - {video_path}, removed := removed w @ [video_path] \<rparr>
      else w)"

definition render_video_task :: "env \<Rightarrow> world \<Rightarrow> string \<Rightarrow> string \<Rightarrow> string \<Rightarrow> world \<times> py_error option" where
  "render_video_task e w job_id video_path metadata_str =
     (let r = except_clauses (try_body e w job_id video_path metadata_str) job_id
      in (finally_clause (fst r) video_path, snd r))"

section \<open>The endpoints\<close>

datatype http_error = Http404 | Http409 | Http500

definition temp_video_path :: "string \<Rightarrow> string \<Rightarrow> string" where
  "temp_video_path job_id filename = path_join STORAGE_DIR (job_id @ ''_'' @ filename)"

text \<open>
  \<open>upload_video\<close>, for the identifier \<open>uuid.uuid4()\<close> drew. \<open>saved\<close> tells whether reading
  the upload and writing it to \<open>temp_video_path\<close> went through without an exception (a
  file left behind by a failed write is not modelled). The rendering task is only
  scheduled here; it runs after the response.
\<close>

definition upload_video :: "world \<Rightarrow> string \<Rightarrow> string \<Rightarrow> string \<Rightarrow> bool \<Rightarrow> world \<times> (http_error + string \<times> job_state)" where
  "upload_video w job_id filename metadata_str saved =
     (let p = temp_video_path job_id filename in
      if \<not> saved then (w, Inl Http500)
      else
        (w\<lparr> files := insert p (files w),
            job_status := (job_status w)(job_id \<mapsto>
              \<lparr> status = PENDING, job_video_path = p, job_metadata = metadata_str, result_path = None \<rparr>) \<rparr>,
         Inr (job_id, PENDING)))"





definition get_status :: "world \<Rightarrow> string \<Rightarrow> http_error + string \<times> job_state" where
  "get_status w job_id =
     (case job_status w job_id of
        None \<Rightarrow> Inl Http404
      | Some j \<Rightarrow> Inr (job_id, status j))"

definition get_result :: "world \<Rightarrow> string \<Rightarrow> http_error + string" where
  "get_result w job_id =
     (case job_status w job_id of
        None \<Rightarrow> Inl Http404
      | Some j \<Rightarrow>
          if status j \<noteq> COMPLETE then Inl Http409
          else
            (case result_path j of
               None \<Rightarrow> Inl Http500
             | Some p \<Rightarrow> if p = [] \<or> p \<notin> files w then Inl Http500 else Inr p))"

section \<open>Notions used to state the properties\<close>

text \<open>
  A filter stage as the encoder reads it: a \<open>drawtext\<close> stage takes one labelled stream
  and writes one; an \<open>overlay\<close> stage comes with the scaling sub-stage that reads the
  auxiliary input \<open>stage_aux\<close> and writes the stream \<open>stage_scaled\<close>, which the overlay
  takes beside its main input. \<open>stage_expr\<close> is the text of a stage.
\<close>

datatype stage =
    is_DrawText: DrawText (stage_in: string) (stage_params: string) (stage_out: string)
  | is_Overlay: Overlay (stage_aux: nat) (stage_scaled: string) (stage_in: string)
      (stage_params: string) (stage_out: string)

fun stage_expr :: "stage \<Rightarrow> string" where
  "stage_expr (DrawText i p out) = i @ p @ out"
| "stage_expr (Overlay k sc i p out) =
     ''['' @ str_nat k @ '':v] scale=150:-1 '' @ sc @ ''; '' @ i @ sc @ p @ out"

text \<open>A chain: every stage reads the label the stage before it wrote.\<close>

fun chained :: "string \<Rightarrow> stage list \<Rightarrow> bool" where
  "chained cur [] = True"
| "chained cur (x # xs) = (stage_in x = cur \<and> chained (stage_out x) xs)"

text \<open>
  An overlay from which the loop emits a stage: a text overlay, or an image overlay
  while the logo exists.
\<close>

definition emits :: "env \<Rightarrow> string set \<Rightarrow> json \<Rightarrow> bool" where
  "emits e fs ov =
     (py_getitem ov ''type'' = Inr (JStr ''text'')
      \<or> (py_getitem ov ''type'' = Inr (JStr ''image'') \<and> image_path e \<in> fs))"

text \<open>
  \<open>built_from e n ov x\<close>: \<open>x\<close> is the stage of the overlay \<open>ov\<close> standing at position
  \<open>n\<close>. It writes the label \<open>[vn]\<close>; for a text overlay it is a \<open>drawtext\<close> stage whose
  filter is \<open>text_filter\<close> of that overlay's escaped content, position and times; for
  an image overlay it is an \<open>overlay\<close> stage with the scaled stream \<open>[img_scaledn]\<close> and
  \<open>overlay_filter\<close> of that overlay's times.
\<close>

definition built_from :: "env \<Rightarrow> nat \<Rightarrow> json \<Rightarrow> stage \<Rightarrow> bool" where
  "built_from e n ov x =
     (case py_getitem ov ''start_time'' of Inl err \<Rightarrow> False | Inr start \<Rightarrow>
     (case py_getitem ov ''end_time'' of Inl err \<Rightarrow> False | Inr end_t \<Rightarrow>
     (case py_getitem ov ''type'' of Inl err \<Rightarrow> False | Inr ty \<Rightarrow>
        stage_out x = new_stream n \<and>
        (if ty = JStr ''text'' then
           is_DrawText x \<and>
           (case py_getitem ov ''content'' of Inl err \<Rightarrow> False | Inr content \<Rightarrow>
           (case py_replace_quotes content of Inl err \<Rightarrow> False | Inr text_content \<Rightarrow>
           (case py_get ov ''x_pos'' (JInt 50) of Inl err \<Rightarrow> False | Inr x_pos \<Rightarrow>
           (case py_get ov ''y_pos'' (JInt 50) of Inl err \<Rightarrow> False | Inr y_pos \<Rightarrow>
              stage_params x = text_filter e text_content x_pos y_pos start end_t))))
         else
           ty = JStr ''image'' \<and> is_Overlay x \<and> stage_scaled x = scale_stream n
           \<and> stage_params x = overlay_filter start end_t))))"

text \<open>
  The overlays of a list that emit a stage, each with its position; positions count
  from \<open>c + 1\<close>, as \<open>filter_count\<close> does.
\<close>

definition emitting :: "env \<Rightarrow> string set \<Rightarrow> nat \<Rightarrow> json list \<Rightarrow> (nat \<times> json) list" where
  "emitting e fs c ovs =
     filter (\<lambda>nov. emits e fs (snd nov)) (zip [c + 1 ..< c + 1 + length ovs] ovs)"

text \<open>
  An overlay entry the loop accepts as a text overlay, or as an image overlay: a
  dictionary with the keys the branch reads, and a string as content.
\<close>

definition is_text_overlay :: "json \<Rightarrow> bool" where
  "is_text_overlay ov =
     (case ov of
        JObj kvs \<Rightarrow>
          lookup kvs ''start_time'' \<noteq> None \<and> lookup kvs ''end_time'' \<noteq> None
          \<and> lookup kvs ''type'' = Some (JStr ''text'')
          \<and> (case lookup kvs ''content'' of Some (JStr c) \<Rightarrow> True | _ \<Rightarrow> False)
      | _ \<Rightarrow> False)"

definition is_image_overlay :: "json \<Rightarrow> bool" where
  "is_image_overlay ov =
     (case ov of
        JObj kvs \<Rightarrow>
          lookup kvs ''start_time'' \<noteq> None \<and> lookup kvs ''end_time'' \<noteq> None
          \<and> lookup kvs ''type'' = Some (JStr ''image'')
      | _ \<Rightarrow> False)"

text \<open>
  The command line as the interface description words it, for a separator \<open>sep\<close>
  between the stages: the primary input, one \<open>-i\<close> per auxiliary input, the filter graph,
  the two maps, the fixed encoding options and the output.
\<close>

definition command_shape :: "string \<Rightarrow> string \<Rightarrow> string list \<Rightarrow> string list \<Rightarrow> string \<Rightarrow> string \<Rightarrow> string list" where
  "command_shape sep input aux stages final_stream out =
     [''ffmpeg'', ''-y'', ''-i'', input] @ concat (map (\<lambda>a. [''-i'', a]) aux) @
     [''-filter_complex'', py_join sep stages,
      ''-map'', final_stream, ''-map'', ''0:a?'', ''-c:v'', ''libx264'', ''-crf'', ''23'',
      ''-preset'', ''veryfast'', ''-c:a'', ''aac'', ''-b:a'', ''192k'', out]"

text \<open>
  Escaped text in which no character with a meaning in a filter expression stands
  bare: every single quote, colon, percent sign and backslash follows an escaping
  backslash.
\<close>

fun neutralized :: "string \<Rightarrow> bool" where
  "neutralized [] = True"
| "neutralized (c # cs) =
     (if c = BS then (case cs of [] \<Rightarrow> False | d # ds \<Rightarrow> neutralized ds)
      else c \<noteq> SQ \<and> c \<noteq> CHR '':'' \<and> c \<noteq> CHR ''%'' \<and> neutralized cs)"

text \<open>The number a decimal numeral denotes; it inverts \<open>str_nat\<close>.\<close>

definition digits_value :: "string \<Rightarrow> nat" where
  "digits_value ds = foldl (\<lambda>a c. 10 * a + (of_char c - 48)) 0 ds"

section \<open>Example inputs\<close>

text \<open>
  The two overlays of the interface description's example, an overlay of unknown kind,
  metadata texts with what \<open>json.loads\<close> makes of them, and an encoder that succeeds and
  writes its last argument.
\<close>

definition hi_overlay :: json where
  "hi_overlay = JObj [(''type'', JStr ''text''), (''content'', JStr ''Hi''),
                      (''start_time'', JInt 0), (''end_time'', JInt 2)]"

definition logo_overlay :: json where
  "logo_overlay = JObj [(''type'', JStr ''image''), (''start_time'', JInt 2), (''end_time'', JInt 4)]"

definition sticker_overlay :: json where
  "sticker_overlay = JObj [(''type'', JStr ''sticker''), (''start_time'', JInt 0), (''end_time'', JInt 1)]"

definition hi_logo_metadata :: string where
  \<open>hi_logo_metadata = ''{"overlays": [{"type": "text", "content": "Hi", "start_time": 0, "end_time": 2}, {"type": "image", "start_time": 2, "end_time": 4}]}''\<close>

definition sticker_metadata :: string where
  \<open>sticker_metadata = ''{"overlays": [{"type": "sticker", "start_time": 0, "end_time": 1}]}''\<close>

definition logo_only_metadata :: string where
  \<open>logo_only_metadata = ''{"overlays": [{"type": "image", "start_time": 2, "end_time": 4}]}''\<close>

definition example_loads :: "string \<Rightarrow> py_error + json" where
  "example_loads t =
     (if t = hi_logo_metadata then Inr (JObj [(''overlays'', JArr [hi_overlay, logo_overlay])])
      else if t = sticker_metadata then Inr (JObj [(''overlays'', JArr [sticker_overlay])])
      else if t = logo_only_metadata then Inr (JObj [(''overlays'', JArr [logo_overlay])])
      else if t = ''{}'' then Inr (JObj [])
      else Inl JSONDecodeError)"

definition example_env :: env where
  "example_env =
     \<lparr> getcwd = ''/app'', json_loads = example_loads,
       run = (\<lambda>command fs. (Exit 0, insert (last command) fs)) \<rparr>"

text \<open>An encoder that reports success and writes nothing, and one that fails.\<close>

definition silent_env :: env where
  "silent_env = example_env\<lparr> run := (\<lambda>command fs. (Exit 0, fs)) \<rparr>"

definition failing_env :: env where
  "failing_env = example_env\<lparr> run := (\<lambda>command fs. (Exit 1, fs)) \<rparr>"

text \<open>
  The filter graph of a command, and an encoder that, like \<open>ffmpeg\<close>, refuses a command
  whose filter graph is empty and otherwise succeeds and writes its last argument.
\<close>

fun filter_graph_of :: "string list \<Rightarrow> string option" where
  "filter_graph_of (a # b # rest) =
     (if a = ''-filter_complex'' then Some b else filter_graph_of (b # rest))"
| "filter_graph_of _ = None"

definition strict_env :: env where
  "strict_env =
     example_env\<lparr> run := (\<lambda>command fs.
       if filter_graph_of command = Some [] then (Exit 1, fs)
       else (Exit 0, insert (last command) fs)) \<rparr>"

text \<open>
  A store with one pending job whose upload and logo exist, the same store without
  the logo, a store without the logo whose job has the image overlay only, and a
  store without jobs.
\<close>

definition example_world :: world where
  "example_world =
     \<lparr> job_status = [''j1'' \<mapsto> \<lparr> status = PENDING, job_video_path = ''rendered_videos/j1_in.mp4'',
                                  job_metadata = hi_logo_metadata, result_path = None \<rparr>],
       files = {''rendered_videos/j1_in.mp4'', ''/app/assets/logo.png''},
       removed = [] \<rparr>"

definition no_logo_world :: world where
  "no_logo_world = example_world\<lparr> files := {''rendered_videos/j1_in.mp4''} \<rparr>"

definition logo_only_world :: world where
  "logo_only_world =
     \<lparr> job_status = [''j1'' \<mapsto> \<lparr> status = PENDING, job_video_path = ''rendered_videos/j1_in.mp4'',
                                  job_metadata = logo_only_metadata, result_path = None \<rparr>],
       files = {''rendered_videos/j1_in.mp4''},
       removed = [] \<rparr>"

definition empty_world :: world where
  "empty_world = \<lparr> job_status = Map.empty, files = {''/app/assets/logo.png''}, removed = [] \<rparr>"



text \<open>What the loop leaves for two copies of the text overlay.\<close>

definition two_text_state :: cstate where
  "two_text_state =
     \<lparr> input_files = [''ffmpeg'', ''-y'', ''-i'', ''in.mp4''],
       filter_complex_list =
         [''[0:v]'' @ text_filter example_env ''Hi'' (JInt 50) (JInt 50) (JInt 0) (JInt 2) @ ''[v1]'',
          ''[v1]'' @ text_filter example_env ''Hi'' (JInt 50) (JInt 50) (JInt 0) (JInt 2) @ ''[v2]''],
       current_stream = ''[v2]'',
       filter_count = 2,
       asset_input_index = 1 \<rparr>"

text \<open>What the loop leaves for the text overlay followed by the image overlay.\<close>

definition hi_logo_state :: cstate where
  "hi_logo_state =
     \<lparr> input_files = [''ffmpeg'', ''-y'', ''-i'', ''in.mp4'', ''-i'', ''/app/assets/logo.png''],
       filter_complex_list =
         [''[0:v]'' @ text_filter example_env ''Hi'' (JInt 50) (JInt 50) (JInt 0) (JInt 2) @ ''[v1]'',
          ''[1:v] scale=150:-1 [img_scaled2]; [v1][img_scaled2]''
            @ overlay_filter (JInt 2) (JInt 4) @ ''[v2]''],
       current_stream = ''[v2]'',
       filter_count = 2,
       asset_input_index = 2 \<rparr>"

section \<open>Labels are told apart by their numbers\<close>

lemma digit_char_value: "d < 10 \<Longrightarrow> of_char (digit_char d) - (48::nat) = d"
  by (simp add: digit_char_def)

lemma digits_value_str_nat: "digits_value (str_nat n) = n"
proof (induction n rule: str_nat.induct)
  case (1 n)
  show ?case
  proof (cases "n < 10")
    case True
    then show ?thesis
      by (subst str_nat.simps) (simp add: digits_value_def digit_char_value)
  next
    case False
    have "digits_value (str_nat (n div 10)) = n div 10"
      using "1.IH" False by simp
    then show ?thesis
      using False
      by (subst str_nat.simps) (simp add: digits_value_def digit_char_value)
  qed
qed

lemma str_nat_inj: "str_nat m = str_nat n \<Longrightarrow> m = n"
  by (metis digits_value_str_nat)

lemma new_stream_inj: "new_stream m = new_stream n \<Longrightarrow> m = n"
  by (simp add: new_stream_def str_nat_inj)

lemma new_stream_not_primary: "new_stream n \<noteq> ''[0:v]''"
proof
  assume "new_stream n = ''[0:v]''"
  then have "(new_stream n) ! 1 = CHR ''0''" by simp
  then show False by (simp add: new_stream_def)
qed

lemma new_stream_distinct:
  assumes "sorted_wrt (<) (ns :: nat list)"
  shows "distinct (''[0:v]'' # map new_stream ns)"
proof -
  have "distinct ns" using assms by (simp add: strict_sorted_iff)
  moreover have "inj_on new_stream (set ns)"
    by (rule inj_onI) (rule new_stream_inj)
  ultimately have "distinct (map new_stream ns)" by (simp add: distinct_map)
  moreover have "''[0:v]'' \<notin> set (map new_stream ns)"
  proof
    assume "''[0:v]'' \<in> set (map new_stream ns)"
    then obtain n where "new_stream n = ''[0:v]''" by auto
    then show False by (rule new_stream_not_primary[THEN notE])
  qed
  ultimately show ?thesis by simp
qed

lemma str_nat_examples:
  "str_nat 0 = ''0''" "str_nat 1 = ''1''" "str_nat (Suc 0) = ''1''" "str_nat 2 = ''2''"
  "str_nat 4 = ''4''" "str_nat 50 = ''50''"
  by code_simp+

section \<open>One turn of the overlay loop, and the whole loop\<close>

lemma process_overlay_fields:
  assumes "process_overlay e fs s ov = Inr s'"
  obtains start end_t ty where
    "py_getitem ov ''start_time'' = Inr start"
    "py_getitem ov ''end_time'' = Inr end_t"
    "py_getitem ov ''type'' = Inr ty"
  using assms by (auto simp: process_overlay_def Let_def split: sum.splits)

lemma process_overlay_emit:
  assumes "process_overlay e fs s ov = Inr s'"
  shows "filter_count s' = filter_count s + 1 \<and>
    ((\<not> emits e fs ov
        \<and> filter_complex_list s' = filter_complex_list s \<and> current_stream s' = current_stream s
        \<and> input_files s' = input_files s \<and> asset_input_index s' = asset_input_index s)
     \<or> (emits e fs ov
        \<and> (\<exists>x. built_from e (filter_count s + 1) ov x
            \<and> filter_complex_list s' = filter_complex_list s @ [stage_expr x]
            \<and> stage_in x = current_stream s
            \<and> current_stream s' = stage_out x
            \<and> (is_DrawText x \<longrightarrow> input_files s' = input_files s
                  \<and> asset_input_index s' = asset_input_index s)
            \<and> (is_Overlay x \<longrightarrow> input_files s' = input_files s @ [''-i'', image_path e]
                  \<and> stage_aux x = asset_input_index s
                  \<and> asset_input_index s' = asset_input_index s + 1))))"
proof -
  from assms obtain start end_t ty where
    g: "py_getitem ov ''start_time'' = Inr start"
       "py_getitem ov ''end_time'' = Inr end_t"
       "py_getitem ov ''type'' = Inr ty"
    by (rule process_overlay_fields)
  let ?n = "filter_count s + 1"
  consider (drawtext) "ty = JStr ''text''"
    | (img) "ty \<noteq> JStr ''text''" "ty = JStr ''image''" "image_path e \<in> fs"
    | (skipped) "ty \<noteq> JStr ''text''" "ty \<noteq> JStr ''image'' \<or> image_path e \<notin> fs"
    by blast
  then show ?thesis
  proof cases
    case drawtext
    with assms g obtain content c x_pos y_pos where
      f: "py_getitem ov ''content'' = Inr content" "py_replace_quotes content = Inr c"
         "py_get ov ''x_pos'' (JInt 50) = Inr x_pos" "py_get ov ''y_pos'' (JInt 50) = Inr y_pos" and
      s': "s' = s\<lparr> filter_complex_list := filter_complex_list s
                       @ [current_stream s @ text_filter e c x_pos y_pos start end_t
                          @ new_stream ?n],
                    current_stream := new_stream ?n,
                    filter_count := ?n \<rparr>"
      by (auto simp: process_overlay_def Let_def split: sum.splits)
    let ?x = "DrawText (current_stream s) (text_filter e c x_pos y_pos start end_t) (new_stream ?n)"
    have em: "emits e fs ov" using g drawtext by (simp add: emits_def)
    have bf: "built_from e ?n ov ?x" using g drawtext f by (simp add: built_from_def)
    have "filter_complex_list s' = filter_complex_list s @ [stage_expr ?x]"
      by (simp add: s')
    with em bf show ?thesis
      by (intro conjI disjI2 exI[of _ ?x]) (simp_all add: s')
  next
    case img
    with assms g have
      s': "s' = s\<lparr> input_files := input_files s @ [''-i'', image_path e],
                    filter_complex_list := filter_complex_list s
                       @ [scale_filter (asset_input_index s) ?n @ ''; '' @ current_stream s
                          @ scale_stream ?n @ overlay_filter start end_t @ new_stream ?n],
                    current_stream := new_stream ?n,
                    filter_count := ?n,
                    asset_input_index := asset_input_index s + 1 \<rparr>"
      by (auto simp: process_overlay_def Let_def split: sum.splits)
    let ?x = "Overlay (asset_input_index s) (scale_stream ?n) (current_stream s)
                (overlay_filter start end_t) (new_stream ?n)"
    have em: "emits e fs ov" using g img by (simp add: emits_def)
    have bf: "built_from e ?n ov ?x" using g img by (simp add: built_from_def)
    have "filter_complex_list s' = filter_complex_list s @ [stage_expr ?x]"
      by (simp add: s' scale_filter_def)
    with em bf show ?thesis
      by (intro conjI disjI2 exI[of _ ?x]) (simp_all add: s')
  next
    case skipped
    with assms g have "s' = s\<lparr> filter_count := ?n \<rparr>"
      by (auto simp: process_overlay_def Let_def split: sum.splits if_splits)
    moreover have "\<not> emits e fs ov" using g skipped by (auto simp: emits_def)
    ultimately show ?thesis by simp
  qed
qed

lemma upt_shift: "[a ..< a + Suc m] = a # [Suc a ..< Suc a + m]"
  by (simp add: upt_conv_Cons del: upt_Suc)

lemma emitting_Nil: "emitting e fs c [] = []"
  by (simp add: emitting_def)

lemma emitting_Cons:
  "emitting e fs c (ov # ovs)
     = (if emits e fs ov then [(c + 1, ov)] else []) @ emitting e fs (c + 1) ovs"
proof -
  have "[c + 1 ..< c + 1 + length (ov # ovs)] = (c + 1) # [Suc (c + 1) ..< Suc (c + 1) + length ovs]"
    using upt_shift[of "c + 1" "length ovs"] by simp
  then show ?thesis by (simp add: emitting_def)
qed

lemma process_overlays_stages:
  assumes "process_overlays e fs s ovs = Inr s'"
  shows "\<exists>ss. filter_complex_list s' = filter_complex_list s @ map stage_expr ss
      \<and> list_all2 (\<lambda>nov x. built_from e (fst nov) (snd nov) x)
           (emitting e fs (filter_count s) ovs) ss
      \<and> chained (current_stream s) ss
      \<and> current_stream s' = last (current_stream s # map stage_out ss)
      \<and> input_files s' = input_files s
            @ concat (replicate (length (filter is_Overlay ss)) [''-i'', image_path e])
      \<and> map stage_aux (filter is_Overlay ss)
            = [asset_input_index s ..< asset_input_index s + length (filter is_Overlay ss)]
      \<and> asset_input_index s' = asset_input_index s + length (filter is_Overlay ss)"
  using assms
proof (induction ovs arbitrary: s)
  case Nil
  then have "s' = s" by simp
  then show ?case
    by (intro exI[of _ "[]"]) (simp add: emitting_Nil)
next
  case (Cons ov ovs)
  from Cons.prems obtain s1 where
    step: "process_overlay e fs s ov = Inr s1" and rest: "process_overlays e fs s1 ovs = Inr s'"
    by (auto split: sum.splits)
  from process_overlay_emit[OF step] have fc: "filter_count s1 = filter_count s + 1"
    by simp
  from Cons.IH[OF rest] obtain ss where
    ih: "filter_complex_list s' = filter_complex_list s1 @ map stage_expr ss"
        "list_all2 (\<lambda>nov x. built_from e (fst nov) (snd nov) x)
           (emitting e fs (filter_count s + 1) ovs) ss"
        "chained (current_stream s1) ss"
        "current_stream s' = last (current_stream s1 # map stage_out ss)"
        "input_files s' = input_files s1
            @ concat (replicate (length (filter is_Overlay ss)) [''-i'', image_path e])"
        "map stage_aux (filter is_Overlay ss)
            = [asset_input_index s1 ..< asset_input_index s1 + length (filter is_Overlay ss)]"
        "asset_input_index s' = asset_input_index s1 + length (filter is_Overlay ss)"
    unfolding fc by blast
  from process_overlay_emit[OF step] consider
    (skipped) "\<not> emits e fs ov"
        "filter_complex_list s1 = filter_complex_list s" "current_stream s1 = current_stream s"
        "input_files s1 = input_files s" "asset_input_index s1 = asset_input_index s"
    | (emitted) x where "emits e fs ov" "built_from e (filter_count s + 1) ov x"
        "filter_complex_list s1 = filter_complex_list s @ [stage_expr x]"
        "stage_in x = current_stream s" "current_stream s1 = stage_out x"
        "is_DrawText x \<Longrightarrow> input_files s1 = input_files s \<and> asset_input_index s1 = asset_input_index s"
        "is_Overlay x \<Longrightarrow> input_files s1 = input_files s @ [''-i'', image_path e]
            \<and> stage_aux x = asset_input_index s \<and> asset_input_index s1 = asset_input_index s + 1"
    by blast
  then show ?case
  proof cases
    case skipped
    have "emitting e fs (filter_count s) (ov # ovs) = emitting e fs (filter_count s + 1) ovs"
      using skipped(1) by (simp add: emitting_Cons)
    with ih skipped show ?thesis
      by (intro exI[of _ ss]) simp
  next
    case emitted
    have em: "emitting e fs (filter_count s) (ov # ovs)
        = (filter_count s + 1, ov) # emitting e fs (filter_count s + 1) ovs"
      using emitted(1) by (simp add: emitting_Cons)
    have r1: "filter_complex_list s' = filter_complex_list s @ map stage_expr (x # ss)"
      using ih(1) emitted(3) by simp
    have r2: "list_all2 (\<lambda>nov x. built_from e (fst nov) (snd nov) x)
           (emitting e fs (filter_count s) (ov # ovs)) (x # ss)"
      unfolding em using ih(2) emitted(2) by simp
    have r3: "chained (current_stream s) (x # ss)"
      using ih(3) emitted(4,5) by simp
    have r4: "current_stream s' = last (current_stream s # map stage_out (x # ss))"
      using ih(4) emitted(5) by simp
    have r567: "input_files s' = input_files s
            @ concat (replicate (length (filter is_Overlay (x # ss))) [''-i'', image_path e])
      \<and> map stage_aux (filter is_Overlay (x # ss))
            = [asset_input_index s ..< asset_input_index s + length (filter is_Overlay (x # ss))]
      \<and> asset_input_index s' = asset_input_index s + length (filter is_Overlay (x # ss))"
    proof (cases x)
      case (DrawText i p out)
      then have "is_DrawText x" by simp
      with emitted(6) DrawText ih(5,6,7) show ?thesis by simp
    next
      case (Overlay k sc i p out)
      then have ov: "is_Overlay x" by simp
      with emitted(7) have
        e6: "input_files s1 = input_files s @ [''-i'', image_path e]"
            "stage_aux x = asset_input_index s"
            "asset_input_index s1 = asset_input_index s + 1"
        by simp_all
      have len: "length (filter is_Overlay (x # ss)) = Suc (length (filter is_Overlay ss))"
        using ov by simp
      have "map stage_aux (filter is_Overlay (x # ss))
              = asset_input_index s # map stage_aux (filter is_Overlay ss)"
        using ov e6(2) by simp
      also have "\<dots> = asset_input_index s
              # [Suc (asset_input_index s) ..< Suc (asset_input_index s) + length (filter is_Overlay ss)]"
        using ih(6) e6(3) by simp
      also have "\<dots> = [asset_input_index s ..<
              asset_input_index s + length (filter is_Overlay (x # ss))]"
        unfolding len by (rule upt_shift[symmetric])
      finally have a: "map stage_aux (filter is_Overlay (x # ss))
              = [asset_input_index s ..< asset_input_index s + length (filter is_Overlay (x # ss))]" .
      have b: "input_files s' = input_files s
            @ concat (replicate (length (filter is_Overlay (x # ss))) [''-i'', image_path e])"
        unfolding len using ih(5) e6(1) by simp
      have c: "asset_input_index s' = asset_input_index s + length (filter is_Overlay (x # ss))"
        unfolding len using ih(7) e6(3) by simp
      from a b c show ?thesis by blast
    qed
    from r1 r2 r3 r4 r567 show ?thesis
      by (intro exI[of _ "x # ss"]) blast
  qed
qed

lemma emitting_labels:
  assumes "list_all2 (\<lambda>nov x. built_from e (fst nov) (snd nov) x) ps ss"
  shows "map stage_out ss = map new_stream (map fst ps)"
  using assms
proof (induction rule: list_all2_induct)
  case Nil
  show ?case by simp
next
  case (Cons p ps x ss)
  from Cons(1) have "stage_out x = new_stream (fst p)"
    by (auto simp: built_from_def split: sum.splits)
  with Cons(3) show ?case by simp
qed

lemma emitting_sorted: "sorted_wrt (<) (map fst (emitting e fs c ovs))"
proof -
  have "length [c + 1 ..< c + 1 + length ovs] = length ovs"
    by (simp only: length_upt add_diff_cancel_left')
  then have "map fst (zip [c + 1 ..< c + 1 + length ovs] ovs) = [c + 1 ..< c + 1 + length ovs]"
    by (rule map_fst_zip)
  moreover have "sorted_wrt (<) [c + 1 ..< c + 1 + length ovs]"
    by (rule sorted_wrt_upt)
  ultimately have "sorted_wrt (<) (map fst (zip [c + 1 ..< c + 1 + length ovs] ovs))"
    by (simp only:)
  then show ?thesis
    unfolding emitting_def sorted_wrt_map by (rule sorted_wrt_filter)
qed

lemma built_from_kind:
  assumes "list_all2 (\<lambda>nov x. built_from e (fst nov) (snd nov) x) ps ss"
  shows "length (filter is_Overlay ss)
      = length (filter (\<lambda>nov. py_getitem (snd nov) ''type'' = Inr (JStr ''image'')) ps)"
  using assms
proof (induction rule: list_all2_induct)
  case Nil
  show ?case by simp
next
  case (Cons p ps x ss)
  from Cons(1) have "is_Overlay x = (py_getitem (snd p) ''type'' = Inr (JStr ''image''))"
    by (cases x) (auto simp: built_from_def split: sum.splits if_splits)
  with Cons(3) show ?case by simp
qed

lemma process_overlay_text:
  assumes "is_text_overlay ov"
  shows "\<exists>x. is_DrawText x \<and> stage_in x = current_stream s
      \<and> stage_out x = new_stream (filter_count s + 1)
      \<and> process_overlay e fs s ov
          = Inr (s\<lparr> filter_complex_list := filter_complex_list s @ [stage_expr x],
                    current_stream := new_stream (filter_count s + 1),
                    filter_count := filter_count s + 1 \<rparr>)"
proof -
  from assms obtain kvs where ov: "ov = JObj kvs"
    by (cases ov) (simp_all add: is_text_overlay_def)
  from assms obtain start end_t where
    k: "lookup kvs ''start_time'' = Some start" "lookup kvs ''end_time'' = Some end_t"
       "lookup kvs ''type'' = Some (JStr ''text'')"
    by (auto simp: is_text_overlay_def ov)
  from assms have tc: "case lookup kvs ''content'' of Some (JStr c) \<Rightarrow> True | _ \<Rightarrow> False"
    by (simp add: is_text_overlay_def ov)
  obtain c where kc: "lookup kvs ''content'' = Some (JStr c)"
  proof (cases "lookup kvs ''content''")
    case None
    with tc show ?thesis by simp
  next
    case (Some v)
    with tc that show ?thesis by (cases v) simp_all
  qed
  obtain x_pos where x: "py_get ov ''x_pos'' (JInt 50) = Inr x_pos"
    by (cases "lookup kvs ''x_pos''") (simp_all add: py_get_def ov)
  obtain y_pos where y: "py_get ov ''y_pos'' (JInt 50) = Inr y_pos"
    by (cases "lookup kvs ''y_pos''") (simp_all add: py_get_def ov)
  let ?x = "DrawText (current_stream s) (text_filter e (escape_quotes c) x_pos y_pos start end_t)
              (new_stream (filter_count s + 1))"
  have "process_overlay e fs s ov
          = Inr (s\<lparr> filter_complex_list := filter_complex_list s @ [stage_expr ?x],
                    current_stream := new_stream (filter_count s + 1),
                    filter_count := filter_count s + 1 \<rparr>)"
    using x y by (simp add: process_overlay_def py_getitem_def py_replace_quotes_def ov k kc Let_def)
  then show ?thesis
    by (intro exI[of _ ?x]) simp
qed

lemma process_overlay_image:
  assumes "is_image_overlay ov" and "image_path e \<in> fs"
  shows "\<exists>x. is_Overlay x \<and> stage_aux x = asset_input_index s
      \<and> stage_in x = current_stream s
      \<and> stage_out x = new_stream (filter_count s + 1)
      \<and> process_overlay e fs s ov
          = Inr (s\<lparr> input_files := input_files s @ [''-i'', image_path e],
                    filter_complex_list := filter_complex_list s @ [stage_expr x],
                    current_stream := new_stream (filter_count s + 1),
                    filter_count := filter_count s + 1,
                    asset_input_index := asset_input_index s + 1 \<rparr>)"
proof -
  from assms(1) obtain kvs start end_t where
    ov: "ov = JObj kvs" and
    k: "lookup kvs ''start_time'' = Some start" "lookup kvs ''end_time'' = Some end_t"
       "lookup kvs ''type'' = Some (JStr ''image'')"
    by (auto simp: is_image_overlay_def split: json.splits option.splits)
  let ?x = "Overlay (asset_input_index s) (scale_stream (filter_count s + 1)) (current_stream s)
              (overlay_filter start end_t) (new_stream (filter_count s + 1))"
  have "process_overlay e fs s ov
          = Inr (s\<lparr> input_files := input_files s @ [''-i'', image_path e],
                    filter_complex_list := filter_complex_list s @ [stage_expr ?x],
                    current_stream := new_stream (filter_count s + 1),
                    filter_count := filter_count s + 1,
                    asset_input_index := asset_input_index s + 1 \<rparr>)"
    using assms(2)
    by (simp add: process_overlay_def py_getitem_def ov k Let_def scale_filter_def)
  then show ?thesis
    by (intro exI[of _ ?x]) simp
qed

lemma process_overlay_unknown:
  assumes "py_getitem ov ''start_time'' = Inr a" and "py_getitem ov ''end_time'' = Inr b"
    and "py_getitem ov ''type'' = Inr ty" and "ty \<noteq> JStr ''text''" and "ty \<noteq> JStr ''image''"
  shows "process_overlay e fs s ov = Inr (s\<lparr> filter_count := filter_count s + 1 \<rparr>)"
  using assms by (simp add: process_overlay_def Let_def)

lemma filter_length_cong:
  "map P xs = map Q ys \<Longrightarrow> length (filter P xs) = length (filter Q ys)"
  by (induction xs arbitrary: ys) auto

lemma process_overlays_valid:
  assumes "\<forall>ov \<in> set ovs. is_text_overlay ov \<or> is_image_overlay ov"
    and "image_path e \<in> fs"
  shows "\<exists>s' ss. process_overlays e fs s ovs = Inr s'
      \<and> filter_complex_list s' = filter_complex_list s @ map stage_expr ss
      \<and> map is_Overlay ss = map is_image_overlay ovs
      \<and> chained (current_stream s) ss
      \<and> current_stream s' = last (current_stream s # map stage_out ss)
      \<and> map stage_out ss = map new_stream [filter_count s + 1 ..< filter_count s + 1 + length ovs]
      \<and> map stage_aux (filter is_Overlay ss)
            = [asset_input_index s ..< asset_input_index s + length (filter is_Overlay ss)]
      \<and> input_files s' = input_files s
            @ concat (replicate (length (filter is_Overlay ss)) [''-i'', image_path e])"
  using assms(1)
proof (induction ovs arbitrary: s)
  case Nil
  show ?case by (intro exI[of _ s] exI[of _ "[]"]) simp
next
  case (Cons ov ovs)
  let ?n = "filter_count s + 1"
  have "\<exists>s1 x. process_overlay e fs s ov = Inr s1
      \<and> filter_complex_list s1 = filter_complex_list s @ [stage_expr x]
      \<and> is_Overlay x = is_image_overlay ov
      \<and> stage_in x = current_stream s \<and> stage_out x = new_stream ?n
      \<and> current_stream s1 = new_stream ?n \<and> filter_count s1 = ?n
      \<and> (is_Overlay x \<longrightarrow> stage_aux x = asset_input_index s)
      \<and> asset_input_index s1 = asset_input_index s + (if is_Overlay x then 1 else 0)
      \<and> input_files s1 = input_files s @ (if is_Overlay x then [''-i'', image_path e] else [])"
  proof (cases "is_text_overlay ov")
    case True
    then have ni: "\<not> is_image_overlay ov"
      by (auto simp: is_text_overlay_def is_image_overlay_def split: json.splits)
    from process_overlay_text[OF True, of s e fs] obtain x where
      x: "is_DrawText x" "stage_in x = current_stream s" "stage_out x = new_stream ?n"
         "process_overlay e fs s ov
            = Inr (s\<lparr> filter_complex_list := filter_complex_list s @ [stage_expr x],
                    current_stream := new_stream ?n, filter_count := ?n \<rparr>)"
      by blast
    from x(1) have "\<not> is_Overlay x" by (cases x) simp_all
    with x ni show ?thesis
      by (intro exI[of _ "s\<lparr> filter_complex_list := filter_complex_list s @ [stage_expr x],
                    current_stream := new_stream ?n, filter_count := ?n \<rparr>"] exI[of _ x]) simp
  next
    case False
    with Cons.prems have img: "is_image_overlay ov" by simp
    from process_overlay_image[OF img assms(2), of s] obtain x where
      x: "is_Overlay x" "stage_aux x = asset_input_index s" "stage_in x = current_stream s"
         "stage_out x = new_stream ?n"
         "process_overlay e fs s ov
          = Inr (s\<lparr> input_files := input_files s @ [''-i'', image_path e],
                    filter_complex_list := filter_complex_list s @ [stage_expr x],
                    current_stream := new_stream ?n,
                    filter_count := ?n,
                    asset_input_index := asset_input_index s + 1 \<rparr>)"
      by blast
    with img show ?thesis
      by (intro exI[of _ "s\<lparr> input_files := input_files s @ [''-i'', image_path e],
                    filter_complex_list := filter_complex_list s @ [stage_expr x],
                    current_stream := new_stream ?n,
                    filter_count := ?n,
                    asset_input_index := asset_input_index s + 1 \<rparr>"] exI[of _ x]) simp
  qed
  then obtain s1 x where
    st: "process_overlay e fs s ov = Inr s1"
        "filter_complex_list s1 = filter_complex_list s @ [stage_expr x]"
        "is_Overlay x = is_image_overlay ov"
        "stage_in x = current_stream s" "stage_out x = new_stream ?n"
        "current_stream s1 = new_stream ?n" "filter_count s1 = ?n"
        "is_Overlay x \<longrightarrow> stage_aux x = asset_input_index s"
        "asset_input_index s1 = asset_input_index s + (if is_Overlay x then 1 else 0)"
        "input_files s1 = input_files s @ (if is_Overlay x then [''-i'', image_path e] else [])"
    by blast
  from Cons.prems have "\<forall>ov \<in> set ovs. is_text_overlay ov \<or> is_image_overlay ov" by simp
  from Cons.IH[OF this, of s1] obtain s' ss where
    ih: "process_overlays e fs s1 ovs = Inr s'"
        "filter_complex_list s' = filter_complex_list s1 @ map stage_expr ss"
        "map is_Overlay ss = map is_image_overlay ovs"
        "chained (current_stream s1) ss"
        "current_stream s' = last (current_stream s1 # map stage_out ss)"
        "map stage_out ss = map new_stream [filter_count s1 + 1 ..< filter_count s1 + 1 + length ovs]"
        "map stage_aux (filter is_Overlay ss)
            = [asset_input_index s1 ..< asset_input_index s1 + length (filter is_Overlay ss)]"
        "input_files s' = input_files s1
            @ concat (replicate (length (filter is_Overlay ss)) [''-i'', image_path e])"
    by blast
  have r1: "process_overlays e fs s (ov # ovs) = Inr s'"
    using st(1) ih(1) by simp
  have r2: "filter_complex_list s' = filter_complex_list s @ map stage_expr (x # ss)"
    using st(2) ih(2) by simp
  have r3: "map is_Overlay (x # ss) = map is_image_overlay (ov # ovs)"
    using st(3) ih(3) by simp
  have r4: "chained (current_stream s) (x # ss)"
    using st(4,5,6) ih(4) by simp
  have r5: "current_stream s' = last (current_stream s # map stage_out (x # ss))"
    using st(5,6) ih(5) by simp
  have "[?n ..< ?n + length (ov # ovs)] = ?n # [Suc ?n ..< Suc ?n + length ovs]"
    using upt_shift[of ?n "length ovs"] by simp
  then have r6: "map stage_out (x # ss)
      = map new_stream [filter_count s + 1 ..< filter_count s + 1 + length (ov # ovs)]"
    using st(5,7) ih(6) by simp
  have r78: "map stage_aux (filter is_Overlay (x # ss))
            = [asset_input_index s ..< asset_input_index s + length (filter is_Overlay (x # ss))]
      \<and> input_files s' = input_files s
            @ concat (replicate (length (filter is_Overlay (x # ss))) [''-i'', image_path e])"
  proof (cases "is_Overlay x")
    case True
    have "map stage_aux (filter is_Overlay (x # ss))
        = asset_input_index s # [Suc (asset_input_index s) ..<
            Suc (asset_input_index s) + length (filter is_Overlay ss)]"
      using True st(8,9) ih(7) by simp
    also have "\<dots> = [asset_input_index s ..<
            asset_input_index s + Suc (length (filter is_Overlay ss))]"
      by (rule upt_shift[symmetric])
    finally have "map stage_aux (filter is_Overlay (x # ss))
        = [asset_input_index s ..< asset_input_index s + length (filter is_Overlay (x # ss))]"
      using True by simp
    moreover have "input_files s' = input_files s
            @ concat (replicate (length (filter is_Overlay (x # ss))) [''-i'', image_path e])"
      using True st(10) ih(8) by simp
    ultimately show ?thesis by blast
  next
    case False
    then show ?thesis using st(9,10) ih(7,8) by simp
  qed
  from r1 r2 r3 r4 r5 r6 r78 show ?case
    by (intro exI[of _ s'] exI[of _ "x # ss"]) blast
qed

lemma concat_replicate_map: "concat (map (\<lambda>a. [x, a]) (replicate k p)) = concat (replicate k [x, p])"
  by (induction k) simp_all

lemma output_path_plain:
  "take 1 job_id \<noteq> ''/'' \<Longrightarrow> output_path job_id = STORAGE_DIR @ ''/'' @ job_id @ ''_final.mp4''"
  by (cases job_id) (simp_all add: output_path_def path_join_def STORAGE_DIR_def)

section \<open>Facts about the examples\<close>

lemmas example_simps =
  render_video_task_def try_body_def except_clauses_def finally_clause_def
  set_status_def set_result_path_def example_world_def empty_world_def silent_env_def
  failing_env_def example_env_def example_loads_def py_get_def py_iter_def compile_def
  process_overlay_def hi_overlay_def logo_overlay_def sticker_overlay_def py_getitem_def
  py_replace_quotes_def image_path_def path_join_def output_path_def STORAGE_DIR_def
  upload_video_def temp_video_path_def Let_def

lemma metadata_distinct:
  "sticker_metadata \<noteq> hi_logo_metadata" "hi_logo_metadata \<noteq> ''{}''"
  "sticker_metadata \<noteq> ''{}''" "logo_only_metadata \<noteq> hi_logo_metadata"
  "logo_only_metadata \<noteq> sticker_metadata" "logo_only_metadata \<noteq> ''{}''"
  by (simp_all add: sticker_metadata_def hi_logo_metadata_def logo_only_metadata_def)

lemma example_overlays_valid:
  "is_text_overlay hi_overlay" "is_image_overlay logo_overlay"
  "\<not> is_image_overlay hi_overlay" "\<not> is_text_overlay logo_overlay"
  by (simp_all add: is_text_overlay_def is_image_overlay_def hi_overlay_def logo_overlay_def)

lemma two_text_compile:
  "compile example_env {} ''in.mp4'' [hi_overlay, hi_overlay] = Inr two_text_state"
  by (simp add: compile_def init_cstate_def process_overlay_def hi_overlay_def py_getitem_def py_get_def
      py_replace_quotes_def two_text_state_def new_stream_def Let_def)
     code_simp

lemma str_nat_two: "str_nat (Suc (Suc 0)) = ''2''"
  by code_simp

lemma hi_logo_compile:
  "compile example_env {''/app/assets/logo.png''} ''in.mp4'' [hi_overlay, logo_overlay]
     = Inr hi_logo_state"
  by (simp add: compile_def init_cstate_def process_overlay_def hi_overlay_def logo_overlay_def
      py_getitem_def py_get_def py_replace_quotes_def hi_logo_state_def new_stream_def
      scale_stream_def scale_filter_def image_path_def path_join_def example_env_def Let_def
      str_nat_examples str_nat_two)

lemma hi_logo_emitting:
  "emitting example_env {''/app/assets/logo.png''} 0 [hi_overlay, logo_overlay]
     = [(1, hi_overlay), (2, logo_overlay)]"
  by (simp add: emitting_def emits_def hi_overlay_def logo_overlay_def py_getitem_def
      image_path_def path_join_def example_env_def upt_rec)

lemma example_world_job:
  "job_status (fst (render_video_task silent_env example_world ''j1'' ''rendered_videos/j1_in.mp4''
      hi_logo_metadata)) ''j1''
   = Some \<lparr> status = COMPLETE, job_video_path = ''rendered_videos/j1_in.mp4'',
            job_metadata = hi_logo_metadata, result_path = Some ''rendered_videos/j1_final.mp4'' \<rparr>"
  by (simp add: render_video_task_def try_body_def except_clauses_def finally_clause_def
      set_status_def set_result_path_def example_world_def silent_env_def example_env_def
      example_loads_def py_get_def py_iter_def compile_def process_overlay_def
      hi_overlay_def logo_overlay_def py_getitem_def py_replace_quotes_def
      image_path_def path_join_def output_path_def STORAGE_DIR_def Let_def)

lemma example_world_files:
  "files (fst (render_video_task silent_env example_world ''j1'' ''rendered_videos/j1_in.mp4''
      hi_logo_metadata)) = {''/app/assets/logo.png''}"
  by (simp add: render_video_task_def try_body_def except_clauses_def finally_clause_def
      set_status_def set_result_path_def example_world_def silent_env_def example_env_def
      example_loads_def py_get_def py_iter_def compile_def process_overlay_def
      hi_overlay_def logo_overlay_def py_getitem_def py_replace_quotes_def
      image_path_def path_join_def output_path_def STORAGE_DIR_def Let_def)

section \<open>The stages form a chain\<close>

text \<open>
  Claim C8. Whenever the loop ends without an exception, the entries of
  \<open>filter_complex_list\<close> are the texts of stages \<open>ss\<close> that stand one for one, and in
  the same order, for the overlays that emit a stage: the stage of the overlay at
  position \<open>n\<close> is built from that overlay and writes \<open>[vn]\<close>. The stages form a strict
  chain: the first reads the primary stream \<open>[0:v]\<close>, every later one reads the label
  its predecessor wrote, and the label mapped to the output is the one the last stage
  wrote (\<open>[0:v]\<close> when nothing was emitted). The positions increase along the list, and
  no label is written twice or equals the primary stream.
\<close>

theorem stages_form_strict_chain:
  assumes "compile e fs video_path overlays = Inr s"
  shows "\<exists>ss. filter_complex_list s = map stage_expr ss
      \<and> list_all2 (\<lambda>nov x. built_from e (fst nov) (snd nov) x) (emitting e fs 0 overlays) ss
      \<and> chained ''[0:v]'' ss
      \<and> current_stream s = last (''[0:v]'' # map stage_out ss)
      \<and> map stage_out ss = map new_stream (map fst (emitting e fs 0 overlays))
      \<and> sorted_wrt (<) (map fst (emitting e fs 0 overlays))
      \<and> distinct (''[0:v]'' # map stage_out ss)"
proof -
  from assms have "process_overlays e fs (init_cstate video_path) overlays = Inr s"
    by (simp add: compile_def)
  from process_overlays_stages[OF this] obtain ss where
    c0: "filter_complex_list s = filter_complex_list (init_cstate video_path) @ map stage_expr ss"
        "list_all2 (\<lambda>nov x. built_from e (fst nov) (snd nov) x)
           (emitting e fs (filter_count (init_cstate video_path)) overlays) ss"
        "chained (current_stream (init_cstate video_path)) ss"
        "current_stream s = last (current_stream (init_cstate video_path) # map stage_out ss)"
    by blast
  have i: "filter_complex_list (init_cstate video_path) = []"
      "current_stream (init_cstate video_path) = ''[0:v]''"
      "filter_count (init_cstate video_path) = 0"
    by (simp_all add: init_cstate_def)
  have a: "filter_complex_list s = map stage_expr ss"
    using c0(1) unfolding i by simp
  have b: "list_all2 (\<lambda>nov x. built_from e (fst nov) (snd nov) x) (emitting e fs 0 overlays) ss"
    using c0(2) unfolding i .
  have c: "chained ''[0:v]'' ss"
    using c0(3) unfolding i .
  have d: "current_stream s = last (''[0:v]'' # map stage_out ss)"
    using c0(4) unfolding i .
  have l: "map stage_out ss = map new_stream (map fst (emitting e fs 0 overlays))"
    using b by (rule emitting_labels)
  have so: "sorted_wrt (<) (map fst (emitting e fs 0 overlays))"
    by (rule emitting_sorted)
  have "distinct (''[0:v]'' # map stage_out ss)"
    unfolding l using so by (rule new_stream_distinct)
  with a b c d l so show ?thesis by blast
qed

theorem stages_form_strict_chain_witness:
  "emitting example_env {''/app/assets/logo.png''} 0 [hi_overlay, logo_overlay]
     = [(1, hi_overlay), (2, logo_overlay)]
   \<and> (\<exists>s ss. compile example_env {''/app/assets/logo.png''} ''in.mp4'' [hi_overlay, logo_overlay]
        = Inr s
      \<and> filter_complex_list s = map stage_expr ss
      \<and> list_all2 (\<lambda>nov x. built_from example_env (fst nov) (snd nov) x)
           [(1, hi_overlay), (2, logo_overlay)] ss
      \<and> chained ''[0:v]'' ss
      \<and> current_stream s = last (''[0:v]'' # map stage_out ss)
      \<and> map stage_out ss = [new_stream 1, new_stream 2]
      \<and> distinct (''[0:v]'' # map stage_out ss))"
proof -
  from stages_form_strict_chain[OF hi_logo_compile] obtain ss where
    f: "filter_complex_list hi_logo_state = map stage_expr ss"
       "list_all2 (\<lambda>nov x. built_from example_env (fst nov) (snd nov) x)
           [(1, hi_overlay), (2, logo_overlay)] ss"
       "chained ''[0:v]'' ss"
       "current_stream hi_logo_state = last (''[0:v]'' # map stage_out ss)"
       "map stage_out ss = map new_stream (map fst [(1::nat, hi_overlay), (2, logo_overlay)])"
       "distinct (''[0:v]'' # map stage_out ss)"
    unfolding hi_logo_emitting by blast
  from f(5) have l: "map stage_out ss = [new_stream 1, new_stream 2]"
    by (simp only: list.map fst_conv)
  show ?thesis
    by (intro conjI exI[of _ hi_logo_state] exI[of _ ss])
       (rule hi_logo_emitting hi_logo_compile f(1) f(2) f(3) f(4) f(6) l)+
qed

section \<open>Stage count and auxiliary inputs of well-formed overlays\<close>

text \<open>
  Claim C5. For \<open>N\<close> overlays that are all well-formed text or image overlays, with the
  logo present, the loop raises nothing and emits exactly one stage per overlay, in
  order: an \<open>overlay\<close> stage (with its scaling sub-stage) for each image overlay and a
  \<open>drawtext\<close> stage for each text overlay. The scaling sub-stage of the \<open>k\<close>-th image
  overlay reads the auxiliary input \<open>k\<close>, the stages are chained from \<open>[0:v]\<close>, and the
  stream the command maps is the label the last stage wrote.
\<close>

theorem valid_overlays_stage_count:
  assumes "\<forall>ov \<in> set overlays. is_text_overlay ov \<or> is_image_overlay ov"
    and "image_path e \<in> fs"
  shows "\<exists>s ss. compile e fs video_path overlays = Inr s
      \<and> filter_complex_list s = map stage_expr ss
      \<and> length ss = length overlays
      \<and> map is_Overlay ss = map is_image_overlay overlays
      \<and> length (filter is_Overlay ss) = length (filter is_image_overlay overlays)
      \<and> map stage_aux (filter is_Overlay ss)
          = [1 ..< 1 + length (filter is_image_overlay overlays)]
      \<and> chained ''[0:v]'' ss
      \<and> (overlays \<noteq> [] \<longrightarrow> current_stream s = stage_out (last ss))
      \<and> build_command s (output_path job_id)
          = command_shape '', '' video_path
              (replicate (length (filter is_image_overlay overlays)) (image_path e))
              (map stage_expr ss) (current_stream s) (output_path job_id)"
proof -
  let ?s0 = "init_cstate video_path"
  have i: "filter_complex_list ?s0 = []" "current_stream ?s0 = ''[0:v]''"
      "input_files ?s0 = [''ffmpeg'', ''-y'', ''-i'', video_path]"
      "asset_input_index ?s0 = 1"
    by (simp_all add: init_cstate_def)
  from process_overlays_valid[OF assms, of ?s0] obtain s ss where
    v: "process_overlays e fs ?s0 overlays = Inr s"
       "filter_complex_list s = filter_complex_list ?s0 @ map stage_expr ss"
       "map is_Overlay ss = map is_image_overlay overlays"
       "chained (current_stream ?s0) ss"
       "current_stream s = last (current_stream ?s0 # map stage_out ss)"
       "map stage_aux (filter is_Overlay ss)
            = [asset_input_index ?s0 ..< asset_input_index ?s0 + length (filter is_Overlay ss)]"
       "input_files s = input_files ?s0
            @ concat (replicate (length (filter is_Overlay ss)) [''-i'', image_path e])"
    by blast
  have n: "length (filter is_Overlay ss) = length (filter is_image_overlay overlays)"
    using v(3) by (rule filter_length_cong)
  have len: "length ss = length overlays"
    using v(3) by (rule map_eq_imp_length_eq)
  have a: "compile e fs video_path overlays = Inr s"
    using v(1) by (simp add: compile_def)
  have b: "filter_complex_list s = map stage_expr ss"
    using v(2) unfolding i by simp
  have c: "map stage_aux (filter is_Overlay ss)
          = [1 ..< 1 + length (filter is_image_overlay overlays)]"
    using v(6) unfolding i n .
  have d: "chained ''[0:v]'' ss"
    using v(4) unfolding i .
  have f: "overlays \<noteq> [] \<longrightarrow> current_stream s = stage_out (last ss)"
  proof
    assume "overlays \<noteq> []"
    with len have "ss \<noteq> []" by auto
    with v(5) show "current_stream s = stage_out (last ss)"
      by (simp add: last_map)
  qed
  have g: "build_command s (output_path job_id)
          = command_shape '', '' video_path
              (replicate (length (filter is_image_overlay overlays)) (image_path e))
              (map stage_expr ss) (current_stream s) (output_path job_id)"
    unfolding build_command_def command_shape_def filter_complex_string_def v(7) i b n
      concat_replicate_map by simp
  from a b len v(3) n c d f g show ?thesis by blast
qed

theorem valid_overlays_stage_count_witness:
  "\<exists>s ss. compile example_env {''/app/assets/logo.png''} ''in.mp4'' [hi_overlay, logo_overlay] = Inr s
      \<and> filter_complex_list s = map stage_expr ss
      \<and> length ss = length [hi_overlay, logo_overlay]
      \<and> map is_Overlay ss = [False, True]
      \<and> length (filter is_Overlay ss) = 1
      \<and> map stage_aux (filter is_Overlay ss) = [1]
      \<and> chained ''[0:v]'' ss
      \<and> current_stream s = stage_out (last ss)
      \<and> build_command s (output_path ''j1'')
          = command_shape '', '' ''in.mp4'' [''/app/assets/logo.png'']
              (map stage_expr ss) (current_stream s) (output_path ''j1'')"
proof -
  have a: "\<forall>ov \<in> set [hi_overlay, logo_overlay]. is_text_overlay ov \<or> is_image_overlay ov"
    by (simp add: example_overlays_valid)
  have b: "image_path example_env \<in> {''/app/assets/logo.png''}"
    by (simp add: image_path_def path_join_def example_env_def)
  have p: "image_path example_env = ''/app/assets/logo.png''"
    by (simp add: image_path_def path_join_def example_env_def)
  from valid_overlays_stage_count[OF a b, of "''in.mp4''" "''j1''"]
  show ?thesis
    by (simp add: example_overlays_valid p)
qed

section \<open>A missing logo\<close>

text \<open>The skip, for every state of the loop.\<close>

lemma process_overlay_image_absent:
  assumes "is_image_overlay ov" and "image_path e \<notin> fs"
  shows "process_overlay e fs s ov = Inr (s\<lparr> filter_count := filter_count s + 1 \<rparr>)"
proof -
  from assms(1) obtain kvs start end_t where
    ov: "ov = JObj kvs" and
    k: "lookup kvs ''start_time'' = Some start" "lookup kvs ''end_time'' = Some end_t"
       "lookup kvs ''type'' = Some (JStr ''image'')"
    by (auto simp: is_image_overlay_def split: json.splits option.splits)
  show ?thesis
    using assms(2) by (simp add: process_overlay_def py_getitem_def ov k Let_def)
qed

text \<open>
  Claim C7, evaluated. When the logo file is absent, an image overlay changes nothing
  but the stage counter: no stage, no auxiliary input, the same current stream. For the
  job whose only overlay is that image overlay nothing is left to compile: the command
  is the one of an empty overlay list, with an empty filter graph and the map of
  \<open>[0:v]\<close>, and with an encoder that refuses an empty filter graph the job ends \<open>FAILED\<close>.
  Beside a text overlay the same missing logo leaves the job \<open>COMPLETE\<close>.
\<close>

theorem absent_only_image_job_fails:
  "process_overlay strict_env (files logo_only_world) (init_cstate ''rendered_videos/j1_in.mp4'')
      logo_overlay
     = Inr ((init_cstate ''rendered_videos/j1_in.mp4'')\<lparr> filter_count := 1 \<rparr>)
   \<and> compile strict_env (files logo_only_world) ''rendered_videos/j1_in.mp4'' [logo_overlay]
     = Inr ((init_cstate ''rendered_videos/j1_in.mp4'')\<lparr> filter_count := 1 \<rparr>)
   \<and> build_command ((init_cstate ''rendered_videos/j1_in.mp4'')\<lparr> filter_count := 1 \<rparr>)
        (output_path ''j1'')
     = [''ffmpeg'', ''-y'', ''-i'', ''rendered_videos/j1_in.mp4'', ''-filter_complex'', [],
        ''-map'', ''[0:v]'', ''-map'', ''0:a?'', ''-c:v'', ''libx264'', ''-crf'', ''23'',
        ''-preset'', ''veryfast'', ''-c:a'', ''aac'', ''-b:a'', ''192k'',
        ''rendered_videos/j1_final.mp4'']
   \<and> job_status (fst (render_video_task strict_env logo_only_world ''j1''
        ''rendered_videos/j1_in.mp4'' logo_only_metadata)) ''j1''
     = Some \<lparr> status = FAILED, job_video_path = ''rendered_videos/j1_in.mp4'',
              job_metadata = logo_only_metadata, result_path = None \<rparr>
   \<and> job_status (fst (render_video_task strict_env no_logo_world ''j1''
        ''rendered_videos/j1_in.mp4'' hi_logo_metadata)) ''j1''
     = Some \<lparr> status = COMPLETE, job_video_path = ''rendered_videos/j1_in.mp4'',
              job_metadata = hi_logo_metadata, result_path = Some ''rendered_videos/j1_final.mp4'' \<rparr>"
proof (intro conjI)
  show "process_overlay strict_env (files logo_only_world) (init_cstate ''rendered_videos/j1_in.mp4'')
      logo_overlay
     = Inr ((init_cstate ''rendered_videos/j1_in.mp4'')\<lparr> filter_count := 1 \<rparr>)"
    by (simp add: process_overlay_def logo_overlay_def py_getitem_def image_path_def path_join_def
        strict_env_def example_env_def logo_only_world_def init_cstate_def Let_def)
  then show "compile strict_env (files logo_only_world) ''rendered_videos/j1_in.mp4'' [logo_overlay]
     = Inr ((init_cstate ''rendered_videos/j1_in.mp4'')\<lparr> filter_count := 1 \<rparr>)"
    by (simp add: compile_def)
  show "build_command ((init_cstate ''rendered_videos/j1_in.mp4'')\<lparr> filter_count := 1 \<rparr>)
        (output_path ''j1'')
     = [''ffmpeg'', ''-y'', ''-i'', ''rendered_videos/j1_in.mp4'', ''-filter_complex'', [],
        ''-map'', ''[0:v]'', ''-map'', ''0:a?'', ''-c:v'', ''libx264'', ''-crf'', ''23'',
        ''-preset'', ''veryfast'', ''-c:a'', ''aac'', ''-b:a'', ''192k'',
        ''rendered_videos/j1_final.mp4'']"
    by (simp add: build_command_def filter_complex_string_def init_cstate_def output_path_def
        path_join_def STORAGE_DIR_def)
  show "job_status (fst (render_video_task strict_env logo_only_world ''j1''
        ''rendered_videos/j1_in.mp4'' logo_only_metadata)) ''j1''
     = Some \<lparr> status = FAILED, job_video_path = ''rendered_videos/j1_in.mp4'',
              job_metadata = logo_only_metadata, result_path = None \<rparr>"
    by (simp add: example_simps metadata_distinct strict_env_def logo_only_world_def
        init_cstate_def build_command_def filter_complex_string_def)
  show "job_status (fst (render_video_task strict_env no_logo_world ''j1''
        ''rendered_videos/j1_in.mp4'' hi_logo_metadata)) ''j1''
     = Some \<lparr> status = COMPLETE, job_video_path = ''rendered_videos/j1_in.mp4'',
              job_metadata = hi_logo_metadata, result_path = Some ''rendered_videos/j1_final.mp4'' \<rparr>"
    by (simp add: example_simps metadata_distinct strict_env_def no_logo_world_def
        init_cstate_def build_command_def filter_complex_string_def)
qed

section \<open>The shape of the command line\<close>

text \<open>
  Claim C3, as the code has it. The command is the primary input, one \<open>-i\<close> with the
  logo path per emitted image stage (the \<open>i\<close>-th of them is the input that the \<open>i\<close>-th
  image stage reads), the filter graph, the map of the final stream, the optional audio
  map, the fixed encoding options and the output path. The stage list has one entry
  per overlay that emits a stage, in the overlays' order: the \<open>drawtext\<close> stage of a text
  overlay, or the scaling sub-stage and the \<open>overlay\<close> stage of an image overlay, these
  two joined by a semicolon and a space. The entries are joined into the filter graph
  with a comma and a space. For a job identifier that does not start with a slash the
  output path is \<open>rendered_videos/{job_id}_final.mp4\<close>.
\<close>

theorem command_line_shape:
  assumes "compile e fs video_path overlays = Inr s"
  shows "\<exists>ss. filter_complex_list s = map stage_expr ss
      \<and> list_all2 (\<lambda>nov x. built_from e (fst nov) (snd nov) x) (emitting e fs 0 overlays) ss
      \<and> length (filter is_Overlay ss)
          = length (filter (\<lambda>nov. py_getitem (snd nov) ''type'' = Inr (JStr ''image''))
              (emitting e fs 0 overlays))
      \<and> map stage_aux (filter is_Overlay ss) = [1 ..< 1 + length (filter is_Overlay ss)]
      \<and> build_command s (output_path job_id)
          = command_shape '', '' video_path
              (replicate (length (filter is_Overlay ss)) (image_path e))
              (map stage_expr ss) (current_stream s) (output_path job_id)
      \<and> (take 1 job_id \<noteq> ''/''
            \<longrightarrow> output_path job_id = STORAGE_DIR @ ''/'' @ job_id @ ''_final.mp4'')"
proof -
  from assms have "process_overlays e fs (init_cstate video_path) overlays = Inr s"
    by (simp add: compile_def)
  from process_overlays_stages[OF this] obtain ss where
    c0: "filter_complex_list s = filter_complex_list (init_cstate video_path) @ map stage_expr ss"
        "list_all2 (\<lambda>nov x. built_from e (fst nov) (snd nov) x)
           (emitting e fs (filter_count (init_cstate video_path)) overlays) ss"
        "input_files s = input_files (init_cstate video_path)
            @ concat (replicate (length (filter is_Overlay ss)) [''-i'', image_path e])"
        "map stage_aux (filter is_Overlay ss)
            = [asset_input_index (init_cstate video_path) ..<
                 asset_input_index (init_cstate video_path) + length (filter is_Overlay ss)]"
    by blast
  have i: "filter_complex_list (init_cstate video_path) = []"
      "input_files (init_cstate video_path) = [''ffmpeg'', ''-y'', ''-i'', video_path]"
      "asset_input_index (init_cstate video_path) = 1"
      "filter_count (init_cstate video_path) = 0"
    by (simp_all add: init_cstate_def)
  have a: "filter_complex_list s = map stage_expr ss"
    using c0(1) unfolding i by simp
  have l: "list_all2 (\<lambda>nov x. built_from e (fst nov) (snd nov) x) (emitting e fs 0 overlays) ss"
    using c0(2) unfolding i .
  have k: "length (filter is_Overlay ss)
          = length (filter (\<lambda>nov. py_getitem (snd nov) ''type'' = Inr (JStr ''image''))
              (emitting e fs 0 overlays))"
    using l by (rule built_from_kind)
  have b: "map stage_aux (filter is_Overlay ss) = [1 ..< 1 + length (filter is_Overlay ss)]"
    using c0(4) unfolding i .
  have c: "build_command s (output_path job_id)
          = command_shape '', '' video_path
              (replicate (length (filter is_Overlay ss)) (image_path e))
              (map stage_expr ss) (current_stream s) (output_path job_id)"
    unfolding build_command_def command_shape_def filter_complex_string_def c0(3) i a
      concat_replicate_map by simp
  from a l k b c output_path_plain show ?thesis by blast
qed

text \<open>The command of the example with a text and an image overlay, by the theorem.\<close>

theorem command_line_shape_witness:
  "(\<exists>ss. filter_complex_list hi_logo_state = map stage_expr ss
      \<and> list_all2 (\<lambda>nov x. built_from example_env (fst nov) (snd nov) x)
           [(1, hi_overlay), (2, logo_overlay)] ss
      \<and> length (filter is_Overlay ss) = 1
      \<and> map stage_aux (filter is_Overlay ss) = [1]
      \<and> build_command hi_logo_state (output_path ''j1'')
          = command_shape '', '' ''in.mp4'' [''/app/assets/logo.png'']
              (map stage_expr ss) (current_stream hi_logo_state) (output_path ''j1'')
      \<and> output_path ''j1'' = STORAGE_DIR @ ''/'' @ ''j1'' @ ''_final.mp4'')
   \<and> build_command hi_logo_state (output_path ''j1'')
      = [''ffmpeg'', ''-y'', ''-i'', ''in.mp4'', ''-i'', ''/app/assets/logo.png'',
         ''-filter_complex'',
         ''[0:v]'' @ text_filter example_env ''Hi'' (JInt 50) (JInt 50) (JInt 0) (JInt 2) @ ''[v1]''
           @ '', '' @ ''[1:v] scale=150:-1 [img_scaled2]; [v1][img_scaled2]''
           @ overlay_filter (JInt 2) (JInt 4) @ ''[v2]'',
         ''-map'', ''[v2]'', ''-map'', ''0:a?'', ''-c:v'', ''libx264'', ''-crf'', ''23'',
         ''-preset'', ''veryfast'', ''-c:a'', ''aac'', ''-b:a'', ''192k'',
         ''rendered_videos/j1_final.mp4'']"
proof
  have t: "take 1 ''j1'' \<noteq> ''/''" by simp
  have p: "image_path example_env = ''/app/assets/logo.png''"
    by (simp add: image_path_def path_join_def example_env_def)
  have n: "length (filter (\<lambda>nov. py_getitem (snd nov) ''type'' = Inr (JStr ''image''))
      [(1::nat, hi_overlay), (2, logo_overlay)]) = 1"
    by (simp add: hi_overlay_def logo_overlay_def py_getitem_def)
  from command_line_shape[OF hi_logo_compile, of "''j1''"] t obtain ss where
    f: "filter_complex_list hi_logo_state = map stage_expr ss"
       "list_all2 (\<lambda>nov x. built_from example_env (fst nov) (snd nov) x)
           [(1, hi_overlay), (2, logo_overlay)] ss"
       "length (filter is_Overlay ss) = 1"
       "map stage_aux (filter is_Overlay ss) = [1 ..< 1 + length (filter is_Overlay ss)]"
       "build_command hi_logo_state (output_path ''j1'')
          = command_shape '', '' ''in.mp4''
              (replicate (length (filter is_Overlay ss)) ''/app/assets/logo.png'')
              (map stage_expr ss) (current_stream hi_logo_state) (output_path ''j1'')"
       "output_path ''j1'' = STORAGE_DIR @ ''/'' @ ''j1'' @ ''_final.mp4''"
    unfolding hi_logo_emitting n p by blast
  have a: "map stage_aux (filter is_Overlay ss) = [1]"
    using f(4) unfolding f(3) by simp
  have b: "build_command hi_logo_state (output_path ''j1'')
          = command_shape '', '' ''in.mp4'' [''/app/assets/logo.png'']
              (map stage_expr ss) (current_stream hi_logo_state) (output_path ''j1'')"
    using f(5) unfolding f(3) by simp
  show "\<exists>ss. filter_complex_list hi_logo_state = map stage_expr ss
      \<and> list_all2 (\<lambda>nov x. built_from example_env (fst nov) (snd nov) x)
           [(1, hi_overlay), (2, logo_overlay)] ss
      \<and> length (filter is_Overlay ss) = 1
      \<and> map stage_aux (filter is_Overlay ss) = [1]
      \<and> build_command hi_logo_state (output_path ''j1'')
          = command_shape '', '' ''in.mp4'' [''/app/assets/logo.png'']
              (map stage_expr ss) (current_stream hi_logo_state) (output_path ''j1'')
      \<and> output_path ''j1'' = STORAGE_DIR @ ''/'' @ ''j1'' @ ''_final.mp4''"
    by (intro exI[of _ ss] conjI) (rule f(1) f(2) f(3) a b f(6))+
next
  show "build_command hi_logo_state (output_path ''j1'')
      = [''ffmpeg'', ''-y'', ''-i'', ''in.mp4'', ''-i'', ''/app/assets/logo.png'',
         ''-filter_complex'',
         ''[0:v]'' @ text_filter example_env ''Hi'' (JInt 50) (JInt 50) (JInt 0) (JInt 2) @ ''[v1]''
           @ '', '' @ ''[1:v] scale=150:-1 [img_scaled2]; [v1][img_scaled2]''
           @ overlay_filter (JInt 2) (JInt 4) @ ''[v2]'',
         ''-map'', ''[v2]'', ''-map'', ''0:a?'', ''-c:v'', ''libx264'', ''-crf'', ''23'',
         ''-preset'', ''veryfast'', ''-c:a'', ''aac'', ''-b:a'', ''192k'',
         ''rendered_videos/j1_final.mp4'']"
    by (simp add: build_command_def filter_complex_string_def hi_logo_state_def output_path_def
        path_join_def STORAGE_DIR_def)
qed

text \<open>
  The claim as the interface description states it, with \<open>; \<close> between the stages,
  fails for two text overlays: the two entries are joined by \<open>, \<close>.
\<close>

theorem stages_not_joined_by_semicolon:
  "compile example_env {} ''in.mp4'' [hi_overlay, hi_overlay] = Inr two_text_state
   \<and> build_command two_text_state (output_path ''j1'')
       \<noteq> command_shape ''; '' ''in.mp4'' [] (filter_complex_list two_text_state)
            (current_stream two_text_state) ''rendered_videos/j1_final.mp4''"
proof
  show "compile example_env {} ''in.mp4'' [hi_overlay, hi_overlay] = Inr two_text_state"
    by (rule two_text_compile)
  show "build_command two_text_state (output_path ''j1'')
       \<noteq> command_shape ''; '' ''in.mp4'' [] (filter_complex_list two_text_state)
            (current_stream two_text_state) ''rendered_videos/j1_final.mp4''"
    by (simp add: build_command_def command_shape_def filter_complex_string_def two_text_state_def)
qed

section \<open>An empty overlay list\<close>

text \<open>
  Claim C6, evaluated. For an empty overlay list the loop leaves the initial state:
  no stage, and the primary stream \<open>[0:v]\<close> as the final stream. The command then
  carries \<open>-filter_complex\<close> with an empty argument and maps the label \<open>[0:v]\<close>, which
  no filter graph defines.
\<close>

theorem empty_overlay_list_command:
  "compile e fs video_path [] = Inr (init_cstate video_path)
   \<and> filter_complex_list (init_cstate video_path) = []
   \<and> current_stream (init_cstate video_path) = ''[0:v]''
   \<and> build_command (init_cstate video_path) (output_path job_id)
       = [''ffmpeg'', ''-y'', ''-i'', video_path, ''-filter_complex'', [],
          ''-map'', ''[0:v]'', ''-map'', ''0:a?'', ''-c:v'', ''libx264'', ''-crf'', ''23'',
          ''-preset'', ''veryfast'', ''-c:a'', ''aac'', ''-b:a'', ''192k'', output_path job_id]"
  by (simp add: compile_def init_cstate_def build_command_def filter_complex_string_def)

section \<open>Escaping of text content\<close>

text \<open>
  Claim C4, evaluated. \<open>str.replace\<close> escapes the single quote only: a colon, a percent
  sign and a backslash reach the \<open>drawtext\<close> stage as they are, and a backslash before a
  quote turns the inserted backslash into an escaped backslash, so that the quote stands
  bare again.
\<close>

theorem content_escaping_incomplete:
  "escape_quotes ''a:b'' = ''a:b'' \<and> \<not> neutralized (escape_quotes ''a:b'')
   \<and> escape_quotes ''50%'' = ''50%'' \<and> \<not> neutralized (escape_quotes ''50%'')
   \<and> escape_quotes [BS] = [BS] \<and> \<not> neutralized (escape_quotes [BS])
   \<and> escape_quotes [BS, SQ] = [BS, BS, SQ] \<and> \<not> neutralized (escape_quotes [BS, SQ])
   \<and> process_overlays e fs (init_cstate video_path)
        [JObj [(''type'', JStr ''text''), (''content'', JStr ''a:b''),
               (''start_time'', JInt 0), (''end_time'', JInt 2)]]
      = Inr ((init_cstate video_path)
          \<lparr> filter_complex_list :=
               [''[0:v]'' @ ''drawtext=text='' @ [SQ] @ ''a:b'' @ [SQ] @ '':fontfile='' @ [SQ]
                @ font_path e @ [SQ] @ '':fontcolor=yellow:fontsize=48:x=50:y=50:enable=''
                @ [SQ] @ ''between(t,0,2)'' @ [SQ] @ ''[v1]''],
             current_stream := ''[v1]'', filter_count := 1 \<rparr>)"
  by (simp add: process_overlay_def py_getitem_def py_get_def py_replace_quotes_def init_cstate_def
      text_filter_def enable_between_def new_stream_def py_str_def str_int_def Let_def
      str_nat_examples)

text \<open>Content without backslash, colon and percent sign is escaped completely.\<close>

lemma escape_quotes_neutralized:
  "BS \<notin> set s \<Longrightarrow> CHR '':'' \<notin> set s \<Longrightarrow> CHR ''%'' \<notin> set s \<Longrightarrow> neutralized (escape_quotes s)"
  by (induction s) auto

section \<open>Completion of a job\<close>

lemma output_path_nonempty: "output_path job_id \<noteq> []"
  by (simp add: output_path_def path_join_def STORAGE_DIR_def)

lemma set_status_lookup:
  "set_status w job_id st = Inr w' \<Longrightarrow>
     \<exists>j. job_status w job_id = Some j \<and> job_status w' job_id = Some (j\<lparr> status := st \<rparr>)"
  by (auto simp: set_status_def split: option.splits)

lemma try_body_complete:
  assumes "try_body e w job_id video_path metadata_str = (w', None)"
  shows "\<exists>md overlays items s j.
      json_loads e metadata_str = Inr md
    \<and> py_get md ''overlays'' (JArr []) = Inr overlays
    \<and> py_iter overlays = Inr items
    \<and> compile e (files w) video_path items = Inr s
    \<and> fst (run e (build_command s (output_path job_id)) (files w)) = Exit 0
    \<and> job_status w' job_id = Some j \<and> status j = COMPLETE
    \<and> result_path j = Some (output_path job_id)"
  using assms
  by (auto simp: try_body_def Let_def set_status_def set_result_path_def
      split: sum.splits run_outcome.splits if_splits option.splits)

lemma try_body_error:
  assumes "try_body e w job_id video_path metadata_str = (w', Some err)"
  shows "except_clauses (w', Some err) job_id = (w1, r) \<Longrightarrow> job_status w1 job_id = Some j
     \<Longrightarrow> status j = FAILED"
  by (auto simp: except_clauses_def set_status_def split: option.splits sum.splits)

lemma finally_clause_jobs: "job_status (finally_clause w p) = job_status w"
  by (simp add: finally_clause_def)

text \<open>
  Claim C2, as the code has it. A job ends \<open>COMPLETE\<close> only when the metadata was read,
  the loop raised nothing and the encoder exited with 0 on the compiled command; its
  result path is then the output path. The task itself does not look for the output
  file: the result query does, and answers 500 when the file is missing.
\<close>

theorem complete_only_after_encoder_success:
  assumes "job_status (fst (render_video_task e w job_id video_path metadata_str)) job_id = Some j"
      and "status j = COMPLETE"
  shows "\<exists>md overlays items s.
      json_loads e metadata_str = Inr md
    \<and> py_get md ''overlays'' (JArr []) = Inr overlays
    \<and> py_iter overlays = Inr items
    \<and> compile e (files w) video_path items = Inr s
    \<and> fst (run e (build_command s (output_path job_id)) (files w)) = Exit 0
    \<and> result_path j = Some (output_path job_id)
    \<and> get_result (fst (render_video_task e w job_id video_path metadata_str)) job_id
        = (if output_path job_id \<in> files (fst (render_video_task e w job_id video_path metadata_str))
           then Inr (output_path job_id) else Inl Http500)"
proof -
  obtain w0 r0 where t: "try_body e w job_id video_path metadata_str = (w0, r0)"
    by (cases "try_body e w job_id video_path metadata_str")
  obtain w1 r1 where x: "except_clauses (w0, r0) job_id = (w1, r1)"
    by (cases "except_clauses (w0, r0) job_id")
  have rv: "fst (render_video_task e w job_id video_path metadata_str) = finally_clause w1 video_path"
    by (simp add: render_video_task_def Let_def t x)
  from assms(1) have j1: "job_status w1 job_id = Some j"
    by (simp add: rv finally_clause_jobs)
  have "r0 = None"
  proof (cases r0)
    case (Some err)
    with try_body_error[OF t[unfolded Some] x[unfolded Some] j1] assms(2) show ?thesis by simp
  qed simp
  with x have "w1 = w0" by (simp add: except_clauses_def)
  from try_body_complete[OF t[unfolded \<open>r0 = None\<close>]] j1[unfolded \<open>w1 = w0\<close>]
  obtain md overlays items s where
    ok: "json_loads e metadata_str = Inr md"
        "py_get md ''overlays'' (JArr []) = Inr overlays"
        "py_iter overlays = Inr items"
        "compile e (files w) video_path items = Inr s"
        "fst (run e (build_command s (output_path job_id)) (files w)) = Exit 0"
        "result_path j = Some (output_path job_id)"
    by auto
  have "get_result (finally_clause w1 video_path) job_id
        = (if output_path job_id \<in> files (finally_clause w1 video_path)
           then Inr (output_path job_id) else Inl Http500)"
    using j1 assms(2) ok(6) by (simp add: get_result_def finally_clause_jobs output_path_nonempty)
  with ok show ?thesis unfolding rv by blast
qed

theorem complete_only_after_encoder_success_witness:
  "\<exists>md overlays items s.
      json_loads silent_env hi_logo_metadata = Inr md
    \<and> py_get md ''overlays'' (JArr []) = Inr overlays
    \<and> py_iter overlays = Inr items
    \<and> compile silent_env (files example_world) ''rendered_videos/j1_in.mp4'' items = Inr s
    \<and> fst (run silent_env (build_command s (output_path ''j1'')) (files example_world)) = Exit 0
    \<and> Some ''rendered_videos/j1_final.mp4'' = Some (output_path ''j1'')"
proof -
  let ?j = "\<lparr> status = COMPLETE, job_video_path = ''rendered_videos/j1_in.mp4'',
              job_metadata = hi_logo_metadata, result_path = Some ''rendered_videos/j1_final.mp4'' \<rparr>"
  have s: "status ?j = COMPLETE" by simp
  from complete_only_after_encoder_success[OF example_world_job s] show ?thesis
    by simp blast
qed

text \<open>
  The claim as stated fails for an encoder that exits with 0 and writes nothing: the
  job is \<open>COMPLETE\<close> and its output file does not exist.
\<close>

theorem complete_without_output_file:
  "job_status (fst (render_video_task silent_env example_world ''j1'' ''rendered_videos/j1_in.mp4''
      hi_logo_metadata)) ''j1''
     = Some \<lparr> status = COMPLETE, job_video_path = ''rendered_videos/j1_in.mp4'',
              job_metadata = hi_logo_metadata, result_path = Some ''rendered_videos/j1_final.mp4'' \<rparr>
   \<and> ''rendered_videos/j1_final.mp4'' \<notin> files (fst (render_video_task silent_env example_world
        ''j1'' ''rendered_videos/j1_in.mp4'' hi_logo_metadata))
   \<and> get_result (fst (render_video_task silent_env example_world ''j1''
        ''rendered_videos/j1_in.mp4'' hi_logo_metadata)) ''j1'' = Inl Http500"
  by (simp add: example_world_job example_world_files get_result_def)

section \<open>Removal of the uploaded file\<close>

lemma set_status_frame:
  "set_status w job_id st = Inr w' \<Longrightarrow> files w' = files w \<and> removed w' = removed w"
  by (auto simp: set_status_def split: option.splits)

lemma set_result_path_frame:
  "set_result_path w job_id p = Inr w' \<Longrightarrow> files w' = files w \<and> removed w' = removed w"
  by (auto simp: set_result_path_def split: option.splits)

lemma try_body_frame:
  assumes "try_body e w job_id video_path metadata_str = (w', r)"
  shows "removed w' = removed w
     \<and> (files w' = files w \<or> (\<exists>command. files w' = snd (run e command (files w))))"
  using assms
  by (auto simp: try_body_def Let_def
      split: sum.splits run_outcome.splits if_splits
      dest!: set_status_frame set_result_path_frame)

lemma except_clauses_frame:
  "except_clauses (w, r) job_id = (w', r') \<Longrightarrow> files w' = files w \<and> removed w' = removed w"
  by (auto simp: except_clauses_def split: option.splits sum.splits dest!: set_status_frame)

lemma before_finally_frame:
  assumes "except_clauses (try_body e w job_id video_path metadata_str) job_id = (w1, r)"
  shows "removed w1 = removed w
     \<and> (files w1 = files w \<or> (\<exists>command. files w1 = snd (run e command (files w))))"
proof -
  obtain w0 r0 where t: "try_body e w job_id video_path metadata_str = (w0, r0)"
    by (cases "try_body e w job_id video_path metadata_str")
  from assms t have "files w1 = files w0 \<and> removed w1 = removed w0"
    by (simp add: except_clauses_frame)
  with try_body_frame[OF t] show ?thesis by simp
qed

text \<open>
  Claim C9. However the task ends, the uploaded file does not exist afterwards, and
  the task calls \<open>os.remove\<close> at most once, with that path. When the file exists at the
  start and the encoder leaves it in place, it is removed exactly once.
\<close>

theorem input_file_removed_once:
  "video_path \<notin> files (fst (render_video_task e w job_id video_path metadata_str))
   \<and> (\<exists>k. k \<le> 1 \<and> removed (fst (render_video_task e w job_id video_path metadata_str))
             = removed w @ replicate k video_path)
   \<and> (video_path \<in> files w
        \<and> (\<forall>command fs. video_path \<in> fs \<longrightarrow> video_path \<in> snd (run e command fs))
      \<longrightarrow> removed (fst (render_video_task e w job_id video_path metadata_str))
             = removed w @ [video_path])"
proof -
  obtain w1 r where b: "except_clauses (try_body e w job_id video_path metadata_str) job_id = (w1, r)"
    by (cases "except_clauses (try_body e w job_id video_path metadata_str) job_id")
  have rv: "fst (render_video_task e w job_id video_path metadata_str) = finally_clause w1 video_path"
    by (simp add: render_video_task_def Let_def b)
  from before_finally_frame[OF b] have
    rm: "removed w1 = removed w" and
    fl: "files w1 = files w \<or> (\<exists>command. files w1 = snd (run e command (files w)))"
    by simp_all
  have gone: "video_path \<notin> files (finally_clause w1 video_path)"
    by (simp add: finally_clause_def)
  have log: "removed (finally_clause w1 video_path)
      = removed w @ replicate (if video_path \<in> files w1 then 1 else 0) video_path"
    by (simp add: finally_clause_def rm)
  have atmost: "\<exists>k. k \<le> 1 \<and> removed (finally_clause w1 video_path) = removed w @ replicate k video_path"
    by (rule exI[of _ "if video_path \<in> files w1 then 1 else 0"]) (simp add: log)
  have once: "removed (finally_clause w1 video_path) = removed w @ [video_path]"
    if "video_path \<in> files w"
      and "\<forall>command fs. video_path \<in> fs \<longrightarrow> video_path \<in> snd (run e command fs)"
  proof -
    from fl that have "video_path \<in> files w1" by auto
    then show ?thesis by (simp add: log)
  qed
  show ?thesis
    unfolding rv using gone atmost once by blast
qed

theorem input_file_removed_once_witness:
  "''rendered_videos/j1_in.mp4'' \<notin> files (fst (render_video_task example_env example_world ''j1''
       ''rendered_videos/j1_in.mp4'' hi_logo_metadata))
   \<and> removed (fst (render_video_task example_env example_world ''j1''
       ''rendered_videos/j1_in.mp4'' hi_logo_metadata)) = [''rendered_videos/j1_in.mp4'']
   \<and> removed (fst (render_video_task failing_env example_world ''j1''
       ''rendered_videos/j1_in.mp4'' hi_logo_metadata)) = [''rendered_videos/j1_in.mp4'']
   \<and> removed (fst (render_video_task example_env example_world ''j1''
       ''rendered_videos/j1_in.mp4'' ''not json'')) = [''rendered_videos/j1_in.mp4'']"
proof -
  have f: "''rendered_videos/j1_in.mp4'' \<in> files example_world"
    by (simp add: example_world_def)
  have r: "removed example_world = []"
    by (simp add: example_world_def)
  have k1: "\<forall>command fs. ''rendered_videos/j1_in.mp4'' \<in> fs
      \<longrightarrow> ''rendered_videos/j1_in.mp4'' \<in> snd (run example_env command fs)"
    by (simp add: example_env_def)
  have k2: "\<forall>command fs. ''rendered_videos/j1_in.mp4'' \<in> fs
      \<longrightarrow> ''rendered_videos/j1_in.mp4'' \<in> snd (run failing_env command fs)"
    by (simp add: failing_env_def example_env_def)
  from input_file_removed_once[of "''rendered_videos/j1_in.mp4''" example_env example_world
      "''j1''" hi_logo_metadata] f k1 r
  have a: "''rendered_videos/j1_in.mp4'' \<notin> files (fst (render_video_task example_env example_world
       ''j1'' ''rendered_videos/j1_in.mp4'' hi_logo_metadata))"
    and b: "removed (fst (render_video_task example_env example_world ''j1''
       ''rendered_videos/j1_in.mp4'' hi_logo_metadata)) = [''rendered_videos/j1_in.mp4'']"
    by simp_all
  from input_file_removed_once[of "''rendered_videos/j1_in.mp4''" failing_env example_world
      "''j1''" hi_logo_metadata] f k2 r
  have c: "removed (fst (render_video_task failing_env example_world ''j1''
       ''rendered_videos/j1_in.mp4'' hi_logo_metadata)) = [''rendered_videos/j1_in.mp4'']"
    by simp
  from input_file_removed_once[of "''rendered_videos/j1_in.mp4''" example_env example_world
      "''j1''" "''not json''"] f k1 r
  have d: "removed (fst (render_video_task example_env example_world ''j1''
       ''rendered_videos/j1_in.mp4'' ''not json'')) = [''rendered_videos/j1_in.mp4'']"
    by simp
  from a b c d show ?thesis by blast
qed

section \<open>Submission\<close>

text \<open>
  Claim C1, as the code has it. Submission never reads the overlays: when the upload
  was saved, a \<open>PENDING\<close> record with the metadata text is stored and the submission
  succeeds, whatever the metadata is; when saving failed, the answer is 500 and nothing
  is stored. An overlay of unknown kind that carries \<open>start_time\<close>, \<open>end_time\<close> and
  \<open>type\<close> is met by the rendering task only, which skips it.
\<close>

theorem submission_does_not_validate_overlays:
  "job_status (fst (upload_video w job_id filename metadata_str True)) job_id
     = Some \<lparr> status = PENDING, job_video_path = temp_video_path job_id filename,
              job_metadata = metadata_str, result_path = None \<rparr>
   \<and> snd (upload_video w job_id filename metadata_str True) = Inr (job_id, PENDING)
   \<and> upload_video w job_id filename metadata_str False = (w, Inl Http500)
   \<and> (py_getitem ov ''start_time'' = Inr a \<and> py_getitem ov ''end_time'' = Inr b
        \<and> py_getitem ov ''type'' = Inr ty \<and> ty \<noteq> JStr ''text'' \<and> ty \<noteq> JStr ''image''
      \<longrightarrow> process_overlay e fs s ov = Inr (s\<lparr> filter_count := filter_count s + 1 \<rparr>))"
  using process_overlay_unknown[of ov a b ty e fs s]
  by (simp add: upload_video_def Let_def)

theorem submission_does_not_validate_overlays_witness:
  "job_status (fst (upload_video empty_world ''j1'' ''in.mp4'' sticker_metadata True)) ''j1''
     = Some \<lparr> status = PENDING, job_video_path = temp_video_path ''j1'' ''in.mp4'',
              job_metadata = sticker_metadata, result_path = None \<rparr>
   \<and> process_overlay example_env {} (init_cstate ''in.mp4'') sticker_overlay
     = Inr ((init_cstate ''in.mp4'')\<lparr> filter_count := filter_count (init_cstate ''in.mp4'') + 1 \<rparr>)"
proof -
  have "py_getitem sticker_overlay ''start_time'' = Inr (JInt 0)
      \<and> py_getitem sticker_overlay ''end_time'' = Inr (JInt 1)
      \<and> py_getitem sticker_overlay ''type'' = Inr (JStr ''sticker'')
      \<and> JStr ''sticker'' \<noteq> JStr ''text'' \<and> JStr ''sticker'' \<noteq> JStr ''image''"
    by (simp add: sticker_overlay_def py_getitem_def)
  with submission_does_not_validate_overlays[of empty_world "''j1''" "''in.mp4''"
      sticker_metadata sticker_overlay "JInt 0" "JInt 1" "JStr ''sticker''"
      example_env "{}" "init_cstate ''in.mp4''"]
  show ?thesis by blast
qed

text \<open>
  The claim as stated fails: a submission with an overlay of kind \<open>sticker\<close> succeeds
  and stores a job.
\<close>

theorem unknown_kind_is_accepted:
  "snd (upload_video empty_world ''j1'' ''in.mp4'' sticker_metadata True) = Inr (''j1'', PENDING)
   \<and> job_status (fst (upload_video empty_world ''j1'' ''in.mp4'' sticker_metadata True)) ''j1''
       = Some \<lparr> status = PENDING, job_video_path = ''rendered_videos/j1_in.mp4'',
                job_metadata = sticker_metadata, result_path = None \<rparr>
   \<and> json_loads example_env sticker_metadata = Inr (JObj [(''overlays'', JArr [sticker_overlay])])
   \<and> \<not> is_text_overlay sticker_overlay \<and> \<not> is_image_overlay sticker_overlay"
  by (simp add: example_simps metadata_distinct is_text_overlay_def is_image_overlay_def)

section \<open>Where the upload is saved\<close>
















end
